theory Spec2Isabelle
  imports Complex_Main "HOL-Library.AList" "HOL-Library.Word"
begin

unbundle bit_operations_syntax

section \<open>Common conventions\<close>

text \<open>
  The engine is two C++ classes: \<^verbatim>\<open>thermal_monitoring::ThermalIsolationTracker\<close>
  (ThermalIsolationTracker.h/.cpp) and \<^verbatim>\<open>rpi4_gateway::DataProcessor\<close>
  (RPi4_Gateway.h, RPi4_DataProcessor.cpp).

  \<^item> A stored \<^verbatim>\<open>float\<close> is the \<^typ>\<open>real\<close> it denotes, a finite value, and comparisons of
    stored values are exact. The arithmetic of the trend analysis is single-precision
    arithmetic, every operation rounded; elsewhere the arithmetic on floats is the exact
    arithmetic of the same expression.
  \<^item> A \<^verbatim>\<open>steady_clock::time_point\<close> is the integer count of clock ticks (nanoseconds)
    since the clock's epoch; the default-constructed \<^verbatim>\<open>time_point{}\<close> is 0.
  \<^item> Every method that reads the clock takes the reading as its parameter \<open>now\<close>; the few
    reads inside one call made under the lock are taken at the same instant.
  \<^item> A \<^verbatim>\<open>size_t\<close> count is a \<^typ>\<open>nat\<close>.
  \<^item> A callback is the list of values the call hands to it, returned beside the new state;
    so are the console lines that report an alert, a dropped packet or an ignored packet.
    Console lines that only log progress are left out, and so is the rendering of values
    as text: a message is the value it renders.
  \<^item> An \<^verbatim>\<open>unordered_map\<close> that the code iterates is an association list with distinct
    keys, iterated in list order; one that is only looked up is a map.
\<close>

type_synonym time_point = int

definition ticks_per_second :: int where
  "ticks_per_second = 1000000000"

definition ticks_per_minute :: int where
  "ticks_per_minute = 60 * ticks_per_second"

text \<open>\<^verbatim>\<open>duration_cast<minutes>(d).count()\<close>: integer division that truncates toward zero.\<close>

definition duration_cast_minutes :: "int \<Rightarrow> int" where
  "duration_cast_minutes d =
     (if 0 \<le> d then d div ticks_per_minute else - ((- d) div ticks_per_minute))"

text \<open>\<^verbatim>\<open>duration_cast<seconds>(d).count()\<close>, likewise.\<close>

definition duration_cast_seconds :: "int \<Rightarrow> int" where
  "duration_cast_seconds d =
     (if 0 \<le> d then d div ticks_per_second else - ((- d) div ticks_per_second))"

text \<open>\<^verbatim>\<open>std::chrono::seconds(n)\<close> as a tick count.\<close>

definition seconds :: "int \<Rightarrow> int" where
  "seconds n = n * ticks_per_second"

section \<open>Single-precision arithmetic\<close>

text \<open>
  A \<^verbatim>\<open>float\<close> of this code is an IEEE 754 binary32 value: a finite value \<open>m * 2^q\<close> with
  \<open>|m| < 2^24\<close> and \<open>q\<close> from \<open>-149\<close> to \<open>104\<close>, an infinity, or a NaN. An operation yields
  its exact result rounded to the nearest such value, ties to the even significand, and an
  infinity when the rounded magnitude reaches \<open>2^128\<close>. Every operation is rounded on its own
  (no wider intermediate precision, no fused multiply-add). The sign of a zero is not kept:
  a zero divisor counts as \<open>+0\<close>, which is what the subtraction of equal values yields.
\<close>

datatype float32 = Finite real | PlusInfinity | MinusInfinity | NaN

text \<open>The nearest integer, ties to the even one.\<close>

definition round_half_even :: "real \<Rightarrow> int" where
  "round_half_even x =
     (let f = \<lfloor>x\<rfloor>; d = x - of_int f
      in if d < 1 / 2 then f else if d > 1 / 2 then f + 1 else if even f then f else f + 1)"

text \<open>
  The exponent \<open>q\<close> of the unit in the last place at magnitude \<open>a\<close>: the largest \<open>q\<close> from
  \<open>-149\<close> to \<open>104\<close> with \<open>2^(q+23) \<le> a\<close>, and \<open>-149\<close> when there is none (zero, the subnormal
  numbers and the first binade of the normal ones). \<open>ulp_bisect k lo a\<close> finds by bisection
  the largest \<open>q\<close> from \<open>lo\<close> to \<open>lo + 2^k - 1\<close> with \<open>2^(q+23) \<le> a\<close>, and \<open>lo\<close> when there is none.
\<close>

fun ulp_bisect :: "nat \<Rightarrow> int \<Rightarrow> real \<Rightarrow> int" where
  "ulp_bisect 0 lo a = lo"
| "ulp_bisect (Suc k) lo a =
     (if 2 powi (lo + 2 ^ k + 23) \<le> a then ulp_bisect k (lo + 2 ^ k) a else ulp_bisect k lo a)"

definition ulp_exponent :: "real \<Rightarrow> int" where
  "ulp_exponent x = min 104 (ulp_bisect 8 (- 149) \<bar>x\<bar>)"

text \<open>Rounding a real to binary32: to a multiple of the unit in the last place, or overflow.\<close>

definition round_float32 :: "real \<Rightarrow> float32" where
  "round_float32 x =
     (let q = ulp_exponent x;
          r = of_int (round_half_even (x / 2 powi q)) * 2 powi q
      in if r \<ge> 2 ^ 128 then PlusInfinity
         else if r \<le> - (2 ^ 128) then MinusInfinity
         else Finite r)"

text \<open>
  The operations. Finite operands give the rounded exact result; the other cases are those
  of IEEE 754: a NaN operand gives NaN, and so do \<open>\<infinity> - \<infinity>\<close>, \<open>0 * \<infinity>\<close>, \<open>0 / 0\<close> and \<open>\<infinity> / \<infinity>\<close>.
\<close>

fun float32_sign :: "float32 \<Rightarrow> real" where
  "float32_sign (Finite a) = sgn a"
| "float32_sign PlusInfinity = 1"
| "float32_sign MinusInfinity = - 1"
| "float32_sign NaN = 0"

definition signed_infinity :: "real \<Rightarrow> float32" where
  "signed_infinity s = (if s < 0 then MinusInfinity else PlusInfinity)"

fun float32_neg :: "float32 \<Rightarrow> float32" where
  "float32_neg (Finite a) = Finite (- a)"
| "float32_neg PlusInfinity = MinusInfinity"
| "float32_neg MinusInfinity = PlusInfinity"
| "float32_neg NaN = NaN"

fun float32_add :: "float32 \<Rightarrow> float32 \<Rightarrow> float32" where
  "float32_add (Finite a) (Finite b) = round_float32 (a + b)"
| "float32_add NaN b = NaN"
| "float32_add a NaN = NaN"
| "float32_add PlusInfinity MinusInfinity = NaN"
| "float32_add MinusInfinity PlusInfinity = NaN"
| "float32_add PlusInfinity b = PlusInfinity"
| "float32_add MinusInfinity b = MinusInfinity"
| "float32_add (Finite a) b = b"

definition float32_sub :: "float32 \<Rightarrow> float32 \<Rightarrow> float32" where
  "float32_sub a b = float32_add a (float32_neg b)"

fun float32_mul :: "float32 \<Rightarrow> float32 \<Rightarrow> float32" where
  "float32_mul (Finite a) (Finite b) = round_float32 (a * b)"
| "float32_mul NaN b = NaN"
| "float32_mul a NaN = NaN"
| "float32_mul a b =
     (if float32_sign a * float32_sign b = 0 then NaN
      else signed_infinity (float32_sign a * float32_sign b))"

fun float32_div :: "float32 \<Rightarrow> float32 \<Rightarrow> float32" where
  "float32_div (Finite a) (Finite b) =
     (if b = 0 then (if a = 0 then NaN else signed_infinity a) else round_float32 (a / b))"
| "float32_div NaN b = NaN"
| "float32_div a NaN = NaN"
| "float32_div (Finite a) b = Finite 0"
| "float32_div a (Finite b) = signed_infinity (if b < 0 then - float32_sign a else float32_sign a)"
| "float32_div a b = NaN"

text \<open>\<^verbatim>\<open>a < b\<close> and \<^verbatim>\<open>std::abs\<close>; a comparison with a NaN is false.\<close>

fun float32_less :: "float32 \<Rightarrow> float32 \<Rightarrow> bool" where
  "float32_less (Finite a) (Finite b) = (a < b)"
| "float32_less NaN b = False"
| "float32_less a NaN = False"
| "float32_less a MinusInfinity = False"
| "float32_less PlusInfinity b = False"
| "float32_less a b = True"

fun float32_abs :: "float32 \<Rightarrow> float32" where
  "float32_abs (Finite a) = Finite \<bar>a\<bar>"
| "float32_abs NaN = NaN"
| "float32_abs a = PlusInfinity"

section \<open>ThermalIsolationTracker: data model\<close>

datatype AlertType =
  TEMP_TOO_LOW | TEMP_TOO_HIGH | HUMIDITY_TOO_HIGH
  | TEMP_RISING_FAST | TEMP_FALLING_FAST | SENSOR_OFFLINE

record ThermalConfig =
  temp_min :: real
  temp_max :: real
  humidity_max :: real
  temp_rate_limit :: real
  sensor_timeout_minutes :: int
  alert_throttle_minutes :: int
  history_size :: nat
  max_alerts_history :: nat
  sensor_locations :: "string \<rightharpoonup> string"

text \<open>The defaults of the struct's member initialisers.\<close>

definition default_config :: ThermalConfig where
  "default_config = \<lparr>temp_min = 18, temp_max = 28, humidity_max = 60, temp_rate_limit = 2,
     sensor_timeout_minutes = 10, alert_throttle_minutes = 5, history_size = 100,
     max_alerts_history = 1000, sensor_locations = Map.empty\<rparr>"

record TimestampedReading =
  reading_value :: real
  reading_timestamp :: time_point

record SensorData =
  sensor_id :: string
  temperature :: real
  humidity :: real
  location :: string
  last_update :: time_point
  is_active :: bool
  temp_rate :: real
  temperature_history :: "TimestampedReading list"
  humidity_history :: "TimestampedReading list"

text \<open>A default-constructed \<^verbatim>\<open>SensorData\<close>, as \<^verbatim>\<open>sensors_[sensor_id]\<close> inserts it.\<close>

definition new_SensorData :: SensorData where
  "new_SensorData = \<lparr>sensor_id = [], temperature = 0, humidity = 0, location = [],
     last_update = 0, is_active = False, temp_rate = 0,
     temperature_history = [], humidity_history = []\<rparr>"

text \<open>
  An \<^verbatim>\<open>Alert\<close>. Its \<^verbatim>\<open>message\<close> is the text \<^verbatim>\<open>format_alert_message\<close> renders from the
  other fields and the configuration; the rendering of numbers as text is not modelled.
\<close>

record Alert =
  alert_sensor_id :: string
  alert_type :: AlertType
  alert_location :: string
  alert_timestamp :: time_point
  alert_temperature :: real
  alert_humidity :: real
  alert_temp_rate :: real

record SensorStats =
  stats_sensor_id :: string
  stats_location :: string
  current_temp :: real
  current_humidity :: real
  avg_temp :: real
  min_temp :: real
  max_temp :: real
  uptime_minutes :: int

text \<open>\<^verbatim>\<open>SensorStats stats = {}\<close>: empty strings and zeros.\<close>

definition zero_SensorStats :: SensorStats where
  "zero_SensorStats = \<lparr>stats_sensor_id = [], stats_location = [], current_temp = 0,
     current_humidity = 0, avg_temp = 0, min_temp = 0, max_temp = 0, uptime_minutes = 0\<rparr>"

text \<open>The tracker's mutable members; the configuration is passed beside it.\<close>

record ThermalIsolationTracker =
  sensors :: "(string \<times> SensorData) list"
  recent_alerts :: "Alert list"
  alert_throttle :: "string \<rightharpoonup> (AlertType \<rightharpoonup> time_point)"

definition new_tracker :: ThermalIsolationTracker where
  "new_tracker = \<lparr>sensors = [], recent_alerts = [], alert_throttle = Map.empty\<rparr>"

section \<open>ThermalIsolationTracker: operations\<close>

definition get_sensor_location :: "ThermalConfig \<Rightarrow> string \<Rightarrow> string" where
  "get_sensor_location cfg sid =
     (case sensor_locations cfg sid of Some l \<Rightarrow> l | None \<Rightarrow> ''Unknown'')"

text \<open>
  \<^verbatim>\<open>should_throttle_alert\<close>. \<^verbatim>\<open>alert_throttle_[sensor_id]\<close> inserts an empty inner map for
  a sensor that has none, so the state is returned too.
\<close>

definition should_throttle_alert ::
  "ThermalConfig \<Rightarrow> time_point \<Rightarrow> string \<Rightarrow> AlertType \<Rightarrow> ThermalIsolationTracker
    \<Rightarrow> bool \<times> ThermalIsolationTracker" where
  "should_throttle_alert cfg now sid ty st =
     (let sensor_throttle = (case alert_throttle st sid of None \<Rightarrow> Map.empty | Some m \<Rightarrow> m);
          st1 = st\<lparr>alert_throttle := (alert_throttle st)(sid \<mapsto> sensor_throttle)\<rparr>
      in case sensor_throttle ty of
           None \<Rightarrow> (False, st1)
         | Some last_fired \<Rightarrow>
             (duration_cast_minutes (now - last_fired) < alert_throttle_minutes cfg, st1))"

text \<open>\<^verbatim>\<open>push_back\<close> followed by \<^verbatim>\<open>pop_front\<close> when the deque has grown past its bound.\<close>

definition push_bounded :: "nat \<Rightarrow> 'a \<Rightarrow> 'a list \<Rightarrow> 'a list" where
  "push_bounded bound x xs = (let ys = xs @ [x] in if length ys > bound then tl ys else ys)"

text \<open>The field assignments with which \<^verbatim>\<open>generate_alert\<close> fills the new \<^verbatim>\<open>Alert\<close>.\<close>

definition make_alert :: "time_point \<Rightarrow> string \<Rightarrow> AlertType \<Rightarrow> SensorData \<Rightarrow> Alert" where
  "make_alert now sid ty sensor =
     \<lparr>alert_sensor_id = sid, alert_type = ty, alert_location = location sensor,
      alert_timestamp = now, alert_temperature = temperature sensor,
      alert_humidity = humidity sensor, alert_temp_rate = temp_rate sensor\<rparr>"

text \<open>
  \<^verbatim>\<open>generate_alert\<close>: returns the alerts handed to the console and the callback (none or
  one) and the new state.
\<close>

definition generate_alert ::
  "ThermalConfig \<Rightarrow> time_point \<Rightarrow> string \<Rightarrow> AlertType \<Rightarrow> SensorData \<Rightarrow> ThermalIsolationTracker
    \<Rightarrow> Alert list \<times> ThermalIsolationTracker" where
  "generate_alert cfg now sid ty sensor st =
     (case should_throttle_alert cfg now sid ty st of
        (True, st1) \<Rightarrow> ([], st1)
      | (False, st1) \<Rightarrow>
          (let alert = make_alert now sid ty sensor;
               inner = (case alert_throttle st1 sid of None \<Rightarrow> Map.empty | Some m \<Rightarrow> m)
           in ([alert],
               st1\<lparr>recent_alerts := push_bounded (max_alerts_history cfg) alert (recent_alerts st1),
                    alert_throttle := (alert_throttle st1)(sid \<mapsto> inner(ty \<mapsto> alert_timestamp alert))\<rparr>)))"

text \<open>The vector \<^verbatim>\<open>alerts\<close> that \<^verbatim>\<open>check_thresholds\<close> builds before it raises them.\<close>

definition threshold_candidates :: "ThermalConfig \<Rightarrow> time_point \<Rightarrow> SensorData \<Rightarrow> AlertType list" where
  "threshold_candidates cfg now sensor =
     (if temperature sensor < temp_min cfg then [TEMP_TOO_LOW]
      else if temperature sensor > temp_max cfg then [TEMP_TOO_HIGH] else [])
     @ (if humidity sensor > humidity_max cfg then [HUMIDITY_TOO_HIGH] else [])
     @ (if \<bar>temp_rate sensor\<bar> > temp_rate_limit cfg
        then (if temp_rate sensor > 0 then [TEMP_RISING_FAST] else [TEMP_FALLING_FAST])
        else [])
     @ (if duration_cast_minutes (now - last_update sensor) > sensor_timeout_minutes cfg
        then [SENSOR_OFFLINE] else [])"

fun generate_alerts ::
  "ThermalConfig \<Rightarrow> time_point \<Rightarrow> string \<Rightarrow> SensorData \<Rightarrow> AlertType list \<Rightarrow> ThermalIsolationTracker
    \<Rightarrow> Alert list \<times> ThermalIsolationTracker" where
  "generate_alerts cfg now sid sensor [] st = ([], st)"
| "generate_alerts cfg now sid sensor (ty # tys) st =
     (case generate_alert cfg now sid ty sensor st of
        (out, st1) \<Rightarrow>
          (case generate_alerts cfg now sid sensor tys st1 of
             (outs, st2) \<Rightarrow> (out @ outs, st2)))"

definition check_thresholds ::
  "ThermalConfig \<Rightarrow> time_point \<Rightarrow> string \<Rightarrow> SensorData \<Rightarrow> ThermalIsolationTracker
    \<Rightarrow> Alert list \<times> ThermalIsolationTracker" where
  "check_thresholds cfg now sid sensor st =
     generate_alerts cfg now sid sensor (threshold_candidates cfg now sensor) st"

text \<open>
  \<^verbatim>\<open>process_sensor_data\<close>: \<^verbatim>\<open>sensors_[sensor_id]\<close> finds the entry or appends a default one;
  \<open>apply_reading\<close> is what the method then does to the entry (the new values, the rate of
  change, the two histories); the result is the alerts raised, the value returned (always
  true) and the new state.
\<close>

definition apply_reading ::
  "ThermalConfig \<Rightarrow> time_point \<Rightarrow> string \<Rightarrow> real \<Rightarrow> real \<Rightarrow> string \<Rightarrow> SensorData \<Rightarrow> SensorData" where
  "apply_reading cfg now sid temp hum loc sensor =
     (let prev_temp = temperature sensor;
          prev_time = last_update sensor;
          s1 = sensor\<lparr>sensor_id := sid, temperature := temp, humidity := hum,
                      location := (if loc = [] then get_sensor_location cfg sid else loc),
                      last_update := now, is_active := True\<rparr>;
          s2 = (if prev_time \<noteq> 0
                then (let time_diff = duration_cast_minutes (now - prev_time)
                      in if time_diff > 0
                         then s1\<lparr>temp_rate := (temp - prev_temp) / real_of_int time_diff\<rparr>
                         else s1)
                else s1);
          s3 = s2\<lparr>temperature_history :=
                     push_bounded (history_size cfg)
                       \<lparr>reading_value = temp, reading_timestamp = now\<rparr> (temperature_history s2)\<rparr>
      in s3\<lparr>humidity_history :=
               push_bounded (history_size cfg)
                 \<lparr>reading_value = hum, reading_timestamp = now\<rparr> (humidity_history s3)\<rparr>)"

definition process_sensor_data ::
  "ThermalConfig \<Rightarrow> time_point \<Rightarrow> string \<Rightarrow> real \<Rightarrow> real \<Rightarrow> string \<Rightarrow> ThermalIsolationTracker
    \<Rightarrow> Alert list \<times> bool \<times> ThermalIsolationTracker" where
  "process_sensor_data cfg now sid temp hum loc st =
     (let sensor0 = (case map_of (sensors st) sid of None \<Rightarrow> new_SensorData | Some s \<Rightarrow> s);
          sensor = apply_reading cfg now sid temp hum loc sensor0;
          st1 = st\<lparr>sensors := AList.update sid sensor (sensors st)\<rparr>
      in case check_thresholds cfg now sid sensor st1 of
           (out, st2) \<Rightarrow> (out, True, st2))"

text \<open>
  \<^verbatim>\<open>check_offline_sensors\<close>: the loop over the sensor map. It rewrites the entries it
  visits and raises through \<^verbatim>\<open>generate_alert\<close>, which does not read the sensor map.
\<close>

fun offline_loop ::
  "ThermalConfig \<Rightarrow> time_point \<Rightarrow> (string \<times> SensorData) list \<Rightarrow> ThermalIsolationTracker
    \<Rightarrow> Alert list \<times> (string \<times> SensorData) list \<times> ThermalIsolationTracker" where
  "offline_loop cfg now [] st = ([], [], st)"
| "offline_loop cfg now ((sid, sensor) # rest) st =
     (if is_active sensor
         \<and> duration_cast_minutes (now - last_update sensor) > sensor_timeout_minutes cfg
      then (let sensor1 = sensor\<lparr>is_active := False\<rparr>
            in case generate_alert cfg now sid SENSOR_OFFLINE sensor1 st of
                 (out, st1) \<Rightarrow>
                   (case offline_loop cfg now rest st1 of
                      (outs, rest1, st2) \<Rightarrow> (out @ outs, (sid, sensor1) # rest1, st2)))
      else (case offline_loop cfg now rest st of
              (outs, rest1, st2) \<Rightarrow> (outs, (sid, sensor) # rest1, st2)))"

definition check_offline_sensors ::
  "ThermalConfig \<Rightarrow> time_point \<Rightarrow> ThermalIsolationTracker \<Rightarrow> Alert list \<times> ThermalIsolationTracker" where
  "check_offline_sensors cfg now st =
     (case offline_loop cfg now (sensors st) st of
        (outs, sensors1, st1) \<Rightarrow> (outs, st1\<lparr>sensors := sensors1\<rparr>))"

text \<open>
  \<^verbatim>\<open>get_sensor_stats\<close>: a \<^verbatim>\<open>const\<close> method that uses \<^verbatim>\<open>find\<close>; it returns the
  statistics and the tracker as the call leaves it.
\<close>

definition history_stats :: "TimestampedReading list \<Rightarrow> SensorStats \<Rightarrow> SensorStats" where
  "history_stats h stats =
     (case h of
        [] \<Rightarrow> stats
      | r0 # _ \<Rightarrow>
          (case fold (\<lambda>r (tsum, mn, mx).
                        (tsum + reading_value r, min mn (reading_value r), max mx (reading_value r)))
                  h (0, reading_value r0, reading_value r0) of
             (tsum, mn, mx) \<Rightarrow>
               stats\<lparr>avg_temp := tsum / real (length h), min_temp := mn, max_temp := mx\<rparr>))"

definition get_sensor_stats ::
  "time_point \<Rightarrow> string \<Rightarrow> ThermalIsolationTracker \<Rightarrow> SensorStats \<times> ThermalIsolationTracker" where
  "get_sensor_stats now sid st =
     (case map_of (sensors st) sid of
        None \<Rightarrow> (zero_SensorStats, st)
      | Some sensor \<Rightarrow>
          (let s1 = zero_SensorStats\<lparr>stats_sensor_id := sid, current_temp := temperature sensor,
                      current_humidity := humidity sensor, stats_location := location sensor\<rparr>;
               s2 = history_stats (temperature_history sensor) s1;
               s3 = (if last_update sensor \<noteq> 0
                     then s2\<lparr>uptime_minutes := duration_cast_minutes (now - last_update sensor)\<rparr>
                     else s2)
           in (s3, st)))"

section \<open>DataProcessor: data model\<close>

datatype CommInterface = UART_INTERFACE | SPI_INTERFACE | I2C_INTERFACE | USB_SERIAL | GPIO_CUSTOM

record SensorDataPacket =
  pkt_sensor_id :: string
  pkt_location :: string
  temperature_celsius :: real
  humidity_percent :: real
  pressure_hpa :: real
  supply_voltage :: real
  sensor_status :: "8 word"
  raw_temp_adc :: "16 word"
  raw_humidity_adc :: "16 word"
  timestamp :: time_point
  interface_used :: CommInterface
  is_valid :: bool
  signal_strength :: real
  packet_sequence :: "32 word"
  data_confidence :: real

record SensorStatistics =
  st_sensor_id :: string
  total_packets :: nat
  valid_packets :: nat
  error_packets :: nat
  packet_loss_rate :: real
  avg_temperature :: real
  avg_humidity :: real
  min_temperature :: real
  max_temperature :: real
  temperature_stddev :: real
  st_last_update :: time_point
  first_seen :: time_point

text \<open>A value-initialised \<^verbatim>\<open>SensorStatistics\<close> (\<^verbatim>\<open>= {}\<close>, or inserted by \<^verbatim>\<open>operator[]\<close>).\<close>

definition zero_SensorStatistics :: SensorStatistics where
  "zero_SensorStatistics = \<lparr>st_sensor_id = [], total_packets = 0, valid_packets = 0,
     error_packets = 0, packet_loss_rate = 0, avg_temperature = 0, avg_humidity = 0,
     min_temperature = 0, max_temperature = 0, temperature_stddev = 0,
     st_last_update = 0, first_seen = 0\<rparr>"

record EdgeProcessingResult =
  er_sensor_id :: string
  analysis_type :: string
  metrics :: "string \<rightharpoonup> float32"
  er_alerts :: "string list"
  recommendations :: "string list"
  confidence_score :: float32
  processed_at :: time_point

text \<open>The fields of \<^verbatim>\<open>RPi4GatewayConfig\<close> that the processor reads.\<close>

record RPi4GatewayConfig =
  gateway_id :: string
  mqtt_base_topic :: string
  aggregation_window_seconds :: int
  max_sensor_history :: int
  enable_edge_analytics :: bool
  temp_alert_low :: real
  temp_alert_high :: real
  humidity_alert_high :: real
  max_queue_size :: int
  worker_thread_count :: int

definition default_gateway_config :: RPi4GatewayConfig where
  "default_gateway_config = \<lparr>gateway_id = [], mqtt_base_topic = ''gateway'',
     aggregation_window_seconds = 60, max_sensor_history = 1000, enable_edge_analytics = True,
     temp_alert_low = 10, temp_alert_high = 35, humidity_alert_high = 80,
     max_queue_size = 10000, worker_thread_count = 4\<rparr>"

text \<open>\<^verbatim>\<open>static_cast<size_t>\<close> of an \<^verbatim>\<open>int\<close> on a 64-bit target: a negative value wraps.\<close>

definition size_t_of_int :: "int \<Rightarrow> nat" where
  "size_t_of_int i = nat (i mod 2 ^ 64)"

text \<open>The strings \<^verbatim>\<open>check_alerts\<close> builds, by kind and measured value.\<close>

datatype dp_alert =
  Temperature_too_low real | Temperature_too_high real | Humidity_too_high real
  | Low_battery_voltage real | Sensor_fault_detected | Communication_fault

text \<open>The payload of \<^verbatim>\<open>format_aggregated_data\<close>, field by field.\<close>

record AggregatedData =
  agg_sensor_id :: string
  agg_location :: string
  agg_timestamp :: int
  window_seconds :: int
  sample_count :: nat
  valid_count :: nat
  temperature_avg :: real
  temperature_min :: real
  temperature_max :: real
  humidity_avg :: real
  pressure_avg :: real
  agg_gateway_id :: string

text \<open>
  A formatted message: the JSON texts are kept as the values they render.
  \<open>Empty_object\<close> is the text \<^verbatim>\<open>{}\<close>.
\<close>

datatype dp_message =
  Mqtt_sensor_data SensorDataPacket string
  | WebSocket_sensor_data SensorDataPacket string
  | Aggregated_data AggregatedData
  | Empty_object

text \<open>What a call hands to the callbacks and the console, in the order of the calls.\<close>

datatype dp_event =
  Console_queue_full string
  | Console_ignoring_invalid string
  | Console_alert string dp_alert
  | Alert_callback string dp_alert
  | Mqtt_publish string dp_message
  | WebSocket_send dp_message

record DataProcessor =
  running :: bool
  processing_queue :: "SensorDataPacket list"
  sensor_history :: "(string \<times> SensorDataPacket list) list"
  sensor_stats :: "string \<rightharpoonup> SensorStatistics"
  edge_analytics_enabled :: bool
  edge_results :: "EdgeProcessingResult list"
  mqtt_callback_set :: bool
  websocket_callback_set :: bool
  alert_callback_set :: bool
  last_aggregation :: "time_point option"

text \<open>
  The processor after construction and \<^verbatim>\<open>initialize\<close>. \<open>last_aggregation\<close> is the
  function-local static of \<^verbatim>\<open>process_packet_internal\<close>, unset until first reached. The
  static is one per process; the model is that of a process with one processor, whose
  construction finds it unset.
\<close>

definition new_processor :: "RPi4GatewayConfig \<Rightarrow> DataProcessor" where
  "new_processor cfg = \<lparr>running = False, processing_queue = [], sensor_history = [],
     sensor_stats = Map.empty, edge_analytics_enabled = enable_edge_analytics cfg,
     edge_results = [], mqtt_callback_set = False, websocket_callback_set = False,
     alert_callback_set = False, last_aggregation = None\<rparr>"

section \<open>DataProcessor: operations\<close>

text \<open>\<^verbatim>\<open>process_packet\<close>: the submission to the bounded queue.\<close>

definition process_packet ::
  "RPi4GatewayConfig \<Rightarrow> SensorDataPacket \<Rightarrow> DataProcessor \<Rightarrow> dp_event list \<times> DataProcessor" where
  "process_packet cfg packet st =
     (if \<not> running st then ([], st)
      else if length (processing_queue st) \<ge> size_t_of_int (max_queue_size cfg)
      then ([Console_queue_full (pkt_sensor_id packet)], st)
      else ([], st\<lparr>processing_queue := processing_queue st @ [packet]\<rparr>))"

definition get_sensor_statistics ::
  "string \<Rightarrow> DataProcessor \<Rightarrow> SensorStatistics \<times> DataProcessor" where
  "get_sensor_statistics sid st =
     (case sensor_stats st sid of
        Some stats \<Rightarrow> (stats, st)
      | None \<Rightarrow> (zero_SensorStatistics\<lparr>st_sensor_id := sid\<rparr>, st))"

definition update_statistics :: "SensorDataPacket \<Rightarrow> DataProcessor \<Rightarrow> DataProcessor" where
  "update_statistics packet st =
     (let stats0 = (case sensor_stats st (pkt_sensor_id packet) of
                      None \<Rightarrow> zero_SensorStatistics | Some s \<Rightarrow> s);
          stats1 = (if st_sensor_id stats0 = []
                    then stats0\<lparr>st_sensor_id := pkt_sensor_id packet, total_packets := 0,
                           valid_packets := 0, error_packets := 0, packet_loss_rate := 0,
                           min_temperature := temperature_celsius packet,
                           max_temperature := temperature_celsius packet,
                           first_seen := timestamp packet\<rparr>
                    else stats0);
          stats2 = stats1\<lparr>total_packets := total_packets stats1 + 1\<rparr>;
          stats3 = (if is_valid packet
                    then stats2\<lparr>valid_packets := valid_packets stats2 + 1\<rparr>
                    else stats2\<lparr>error_packets := error_packets stats2 + 1\<rparr>);
          stats4 = stats3\<lparr>packet_loss_rate :=
                      real (error_packets stats3) / real (total_packets stats3)\<rparr>;
          stats5 = (if is_valid packet
                    then (let a = stats4\<lparr>min_temperature :=
                                      min (min_temperature stats4) (temperature_celsius packet),
                                    max_temperature :=
                                      max (max_temperature stats4) (temperature_celsius packet)\<rparr>;
                              b = a\<lparr>avg_temperature :=
                                      (avg_temperature a * real (valid_packets a - 1)
                                        + temperature_celsius packet) / real (valid_packets a),
                                    avg_humidity :=
                                      (avg_humidity a * real (valid_packets a - 1)
                                        + humidity_percent packet) / real (valid_packets a)\<rparr>
                          in b\<lparr>temperature_stddev :=
                                 \<bar>temperature_celsius packet - avg_temperature b\<bar>\<rparr>)
                    else stats4)
      in st\<lparr>sensor_stats :=
              (sensor_stats st)(pkt_sensor_id packet \<mapsto> stats5\<lparr>st_last_update := timestamp packet\<rparr>)\<rparr>)"

text \<open>\<^verbatim>\<open>check_alerts\<close>: the alerts in the order the vector holds them.\<close>

definition packet_alerts :: "RPi4GatewayConfig \<Rightarrow> SensorDataPacket \<Rightarrow> dp_alert list" where
  "packet_alerts cfg packet =
     (if temperature_celsius packet < temp_alert_low cfg
      then [Temperature_too_low (temperature_celsius packet)] else [])
     @ (if temperature_celsius packet > temp_alert_high cfg
        then [Temperature_too_high (temperature_celsius packet)] else [])
     @ (if humidity_percent packet > humidity_alert_high cfg
        then [Humidity_too_high (humidity_percent packet)] else [])
     @ (if supply_voltage packet < 3 then [Low_battery_voltage (supply_voltage packet)] else [])
     @ (if sensor_status packet AND 1 \<noteq> 0 then [Sensor_fault_detected] else [])
     @ (if sensor_status packet AND 2 \<noteq> 0 then [Communication_fault] else [])"

definition check_alerts ::
  "RPi4GatewayConfig \<Rightarrow> SensorDataPacket \<Rightarrow> DataProcessor \<Rightarrow> dp_event list" where
  "check_alerts cfg packet st =
     concat (map (\<lambda>a. (if alert_callback_set st then [Alert_callback (pkt_sensor_id packet) a] else [])
                       @ [Console_alert (pkt_sensor_id packet) a])
                 (packet_alerts cfg packet))"

text \<open>
  The trend analysis of \<^verbatim>\<open>perform_edge_analytics\<close>, in the single-precision arithmetic of
  its \<^verbatim>\<open>float\<close> variables. \<open>regression_sums\<close> is the loop that accumulates \<^verbatim>\<open>sum_xy\<close> and
  \<^verbatim>\<open>sum_x2\<close> from index \<open>i\<close> on; \<^verbatim>\<open>static_cast<float>\<close> of a count rounds it, and
  \<^verbatim>\<open>std::accumulate\<close> from \<^verbatim>\<open>0.0f\<close> adds in single precision.
\<close>

fun regression_sums :: "nat \<Rightarrow> real list \<Rightarrow> float32 \<times> float32 \<Rightarrow> float32 \<times> float32" where
  "regression_sums i [] (sum_xy, sum_x2) = (sum_xy, sum_x2)"
| "regression_sums i (y # ys) (sum_xy, sum_x2) =
     (let x = round_float32 (real i)
      in regression_sums (Suc i) ys
           (float32_add sum_xy (float32_mul x (Finite y)), float32_add sum_x2 (float32_mul x x)))"

definition trend_slope :: "real list \<Rightarrow> float32" where
  "trend_slope temperatures =
     (let n = round_float32 (real (length temperatures));
          sum_x = float32_div (float32_mul n (float32_sub n (Finite 1))) (Finite 2);
          sum_y = foldl float32_add (Finite 0) (map Finite temperatures)
      in case regression_sums 0 temperatures (Finite 0, Finite 0) of
           (sum_xy, sum_x2) \<Rightarrow>
             float32_div (float32_sub (float32_mul n sum_xy) (float32_mul sum_x sum_y))
               (float32_sub (float32_mul n sum_x2) (float32_mul sum_x sum_x)))"

definition trend_intercept :: "real list \<Rightarrow> float32" where
  "trend_intercept temperatures =
     (let n = round_float32 (real (length temperatures));
          sum_x = float32_div (float32_mul n (float32_sub n (Finite 1))) (Finite 2);
          sum_y = foldl float32_add (Finite 0) (map Finite temperatures)
      in float32_div (float32_sub sum_y (float32_mul (trend_slope temperatures) sum_x)) n)"

text \<open>
  The result \<^verbatim>\<open>perform_edge_analytics\<close> builds from the sensor's history, or nothing when
  the history has fewer than 5 entries. \<^verbatim>\<open>std::min(a, b)\<close> is \<open>b\<close> when \<open>b < a\<close> and \<open>a\<close> otherwise.
\<close>

definition edge_analysis ::
  "time_point \<Rightarrow> SensorDataPacket \<Rightarrow> SensorDataPacket list \<Rightarrow> EdgeProcessingResult option" where
  "edge_analysis now packet history =
     (if length history < 5 then None
      else (let temperatures = map temperature_celsius history;
                slope = trend_slope temperatures;
                intercept = trend_intercept temperatures;
                confidence = float32_mul (Finite (data_confidence packet))
                               (float32_div (round_float32 (real (length history))) (Finite 10))
            in Some \<lparr>er_sensor_id = pkt_sensor_id packet,
                      analysis_type = ''trend_analysis'',
                      metrics = [''temperature_trend_slope'' \<mapsto> slope,
                                 ''temperature_trend_intercept'' \<mapsto> intercept,
                                 ''temperature_current'' \<mapsto> Finite (temperature_celsius packet),
                                 ''humidity_current'' \<mapsto> Finite (humidity_percent packet)],
                      er_alerts =
                        (if float32_less (Finite (1 / 2)) (float32_abs slope)
                         then (if float32_less (Finite 0) slope
                               then [''Rising temperature trend detected'']
                               else [''Falling temperature trend detected''])
                         else [])
                        @ (if humidity_percent packet > 70 then [''High humidity detected''] else []),
                      recommendations =
                        (if float32_less (Finite (1 / 2)) (float32_abs slope)
                         then (if float32_less (Finite 0) slope then [''Monitor for overheating'']
                               else [''Check heating system''])
                         else [])
                        @ (if humidity_percent packet > 70 then [''Improve ventilation''] else []),
                      confidence_score =
                        (if float32_less confidence (Finite 1) then confidence else Finite 1),
                      processed_at = now\<rparr>))"

definition perform_edge_analytics ::
  "time_point \<Rightarrow> SensorDataPacket \<Rightarrow> DataProcessor \<Rightarrow> DataProcessor" where
  "perform_edge_analytics now packet st =
     (let history = (case map_of (sensor_history st) (pkt_sensor_id packet) of
                       None \<Rightarrow> [] | Some h \<Rightarrow> h)
      in case edge_analysis now packet history of
           None \<Rightarrow> st
         | Some result \<Rightarrow> st\<lparr>edge_results := push_bounded 100 result (edge_results st)\<rparr>)"

text \<open>
  \<^verbatim>\<open>format_aggregated_data\<close>: the loop over the packets (\<open>aggregate_step\<close> is one turn
  of it), then the message.
\<close>

definition aggregate_step ::
  "SensorDataPacket \<Rightarrow> real \<times> real \<times> real \<times> real \<times> real \<times> nat
    \<Rightarrow> real \<times> real \<times> real \<times> real \<times> real \<times> nat" where
  "aggregate_step packet acc =
     (case acc of (sum_temp, sum_hum, sum_press, mn, mx, valid) \<Rightarrow>
        if is_valid packet
        then (sum_temp + temperature_celsius packet, sum_hum + humidity_percent packet,
              sum_press + pressure_hpa packet, min mn (temperature_celsius packet),
              max mx (temperature_celsius packet), valid + 1)
        else acc)"

definition format_aggregated_data ::
  "RPi4GatewayConfig \<Rightarrow> time_point \<Rightarrow> SensorDataPacket list \<Rightarrow> dp_message" where
  "format_aggregated_data cfg now packets =
     (case packets of
        [] \<Rightarrow> Empty_object
      | p0 # _ \<Rightarrow>
          (case fold aggregate_step packets
                  (0, 0, 0, temperature_celsius p0, temperature_celsius p0, 0) of
             (sum_temp, sum_hum, sum_press, mn, mx, valid) \<Rightarrow>
               if valid = 0 then Empty_object
               else Aggregated_data
                      \<lparr>agg_sensor_id = pkt_sensor_id p0, agg_location = pkt_location p0,
                       agg_timestamp = duration_cast_seconds now,
                       window_seconds = aggregation_window_seconds cfg,
                       sample_count = length packets, valid_count = valid,
                       temperature_avg = sum_temp / real valid,
                       temperature_min = mn, temperature_max = mx,
                       humidity_avg = sum_hum / real valid,
                       pressure_avg = sum_press / real valid,
                       agg_gateway_id = gateway_id cfg\<rparr>))"

text \<open>
  \<^verbatim>\<open>aggregate_and_forward\<close>: the loop over the history map; it changes no member.
  \<open>recent_data\<close> is the filter of a history by the cutoff time, \<open>aggregate_sensor\<close> one
  turn of the loop.
\<close>

definition recent_data :: "RPi4GatewayConfig \<Rightarrow> time_point \<Rightarrow> SensorDataPacket list \<Rightarrow> SensorDataPacket list" where
  "recent_data cfg now history =
     filter (\<lambda>packet. timestamp packet \<ge> now - seconds (aggregation_window_seconds cfg)) history"

definition aggregate_sensor ::
  "RPi4GatewayConfig \<Rightarrow> time_point \<Rightarrow> DataProcessor \<Rightarrow> string \<times> SensorDataPacket list \<Rightarrow> dp_event list" where
  "aggregate_sensor cfg now st entry =
     (case entry of (sid, history) \<Rightarrow>
        if history = [] then []
        else if recent_data cfg now history = [] then []
        else (let aggregated_message = format_aggregated_data cfg now (recent_data cfg now history)
              in (if mqtt_callback_set st
                  then [Mqtt_publish (mqtt_base_topic cfg @ ''/sensors/'' @ sid @ ''/aggregated'')
                          aggregated_message]
                  else [])
                 @ (if websocket_callback_set st then [WebSocket_send aggregated_message] else [])))"

definition aggregate_and_forward ::
  "RPi4GatewayConfig \<Rightarrow> time_point \<Rightarrow> DataProcessor \<Rightarrow> dp_event list" where
  "aggregate_and_forward cfg now st = concat (map (aggregate_sensor cfg now st) (sensor_history st))"

text \<open>
  \<^verbatim>\<open>process_packet_internal\<close>: what a worker does with a dequeued packet.
  \<open>store_in_history\<close> is its block that appends the packet to the sensor's history and
  erases the first entry when the history has grown past \<^verbatim>\<open>max_sensor_history\<close>.
\<close>

definition store_in_history :: "RPi4GatewayConfig \<Rightarrow> SensorDataPacket \<Rightarrow> DataProcessor \<Rightarrow> DataProcessor" where
  "store_in_history cfg packet st =
     (let history = (case map_of (sensor_history st) (pkt_sensor_id packet) of
                       None \<Rightarrow> [] | Some h \<Rightarrow> h)
      in st\<lparr>sensor_history :=
              AList.update (pkt_sensor_id packet)
                (push_bounded (size_t_of_int (max_sensor_history cfg)) packet history)
                (sensor_history st)\<rparr>)"

definition process_packet_internal ::
  "RPi4GatewayConfig \<Rightarrow> time_point \<Rightarrow> SensorDataPacket \<Rightarrow> DataProcessor
    \<Rightarrow> dp_event list \<times> DataProcessor" where
  "process_packet_internal cfg now packet st =
     (if \<not> is_valid packet then ([Console_ignoring_invalid (pkt_sensor_id packet)], st)
      else (let st1 = update_statistics packet st;
                st2 = store_in_history cfg packet st1;
                alerts = check_alerts cfg packet st2;
                st3 = (if edge_analytics_enabled st2 then perform_edge_analytics now packet st2
                       else st2);
                mqtt = (if mqtt_callback_set st3
                        then [Mqtt_publish
                                (mqtt_base_topic cfg @ ''/sensors/'' @ pkt_sensor_id packet @ ''/data'')
                                (Mqtt_sensor_data packet (gateway_id cfg))]
                        else []);
                ws = (if websocket_callback_set st3
                      then [WebSocket_send (WebSocket_sensor_data packet (gateway_id cfg))]
                      else []);
                la = (case last_aggregation st3 of None \<Rightarrow> now | Some t \<Rightarrow> t)
            in if now - la \<ge> seconds (aggregation_window_seconds cfg)
               then (alerts @ mqtt @ ws @ aggregate_and_forward cfg now st3,
                     st3\<lparr>last_aggregation := Some now\<rparr>)
               else (alerts @ mqtt @ ws, st3\<lparr>last_aggregation := Some la\<rparr>)))"

text \<open>
  One turn of \<^verbatim>\<open>worker_loop\<close> once it holds the queue lock: it leaves when the processor
  is stopped, and otherwise takes the front packet, if there is one, and processes it.
\<close>

definition worker_step ::
  "RPi4GatewayConfig \<Rightarrow> time_point \<Rightarrow> DataProcessor \<Rightarrow> dp_event list \<times> DataProcessor" where
  "worker_step cfg now st =
     (if \<not> running st then ([], st)
      else (case processing_queue st of
              [] \<Rightarrow> ([], st)
            | packet # rest \<Rightarrow>
                process_packet_internal cfg now packet (st\<lparr>processing_queue := rest\<rparr>)))"

section \<open>Observations and scenarios used in the statements\<close>

text \<open>The last-fired time recorded for a sensor and an alert kind, if any.\<close>

definition throttle_lookup ::
  "ThermalIsolationTracker \<Rightarrow> string \<Rightarrow> AlertType \<Rightarrow> time_point option" where
  "throttle_lookup st sid ty = (case alert_throttle st sid of None \<Rightarrow> None | Some m \<Rightarrow> m ty)"

text \<open>The tracker after \<^verbatim>\<open>generate_alert\<close> has stored an alert and its time.\<close>

definition fired_state ::
  "ThermalConfig \<Rightarrow> time_point \<Rightarrow> string \<Rightarrow> AlertType \<Rightarrow> SensorData \<Rightarrow> ThermalIsolationTracker
    \<Rightarrow> ThermalIsolationTracker" where
  "fired_state cfg now sid ty sensor st =
     st\<lparr>recent_alerts :=
          push_bounded (max_alerts_history cfg) (make_alert now sid ty sensor) (recent_alerts st),
        alert_throttle :=
          (alert_throttle st)
            (sid \<mapsto> (case alert_throttle st sid of None \<Rightarrow> Map.empty | Some m \<Rightarrow> m)(ty \<mapsto> now))\<rparr>"

text \<open>A sequence of candidates, each with the clock reading at which it is raised.\<close>

type_synonym alert_request = "time_point \<times> string \<times> AlertType \<times> SensorData"

fun admit_all ::
  "ThermalConfig \<Rightarrow> alert_request list \<Rightarrow> ThermalIsolationTracker
    \<Rightarrow> Alert list \<times> ThermalIsolationTracker" where
  "admit_all cfg [] st = ([], st)"
| "admit_all cfg ((now, sid, ty, sensor) # rs) st =
     (case generate_alert cfg now sid ty sensor st of
        (out, st1) \<Rightarrow>
          (case admit_all cfg rs st1 of (outs, st2) \<Rightarrow> (out @ outs, st2)))"

definition same_key :: "Alert \<Rightarrow> Alert \<Rightarrow> bool" where
  "same_key a b \<longleftrightarrow> alert_sensor_id a = alert_sensor_id b \<and> alert_type a = alert_type b"

text \<open>Alerts of one sensor and kind lie at least \<open>gap\<close> ticks apart.\<close>

fun spaced :: "int \<Rightarrow> Alert list \<Rightarrow> bool" where
  "spaced gap [] = True"
| "spaced gap (a # as) =
     ((\<forall>b \<in> set as. same_key a b \<longrightarrow> gap \<le> alert_timestamp b - alert_timestamp a)
      \<and> spaced gap as)"

text \<open>No recorded last-fired time lies after \<open>t\<close>.\<close>

definition clock_bound :: "time_point \<Rightarrow> ThermalIsolationTracker \<Rightarrow> bool" where
  "clock_bound t st \<longleftrightarrow>
     (\<forall>sid ty last_fired. throttle_lookup st sid ty = Some last_fired \<longrightarrow> last_fired \<le> t)"

definition demo_sensor :: SensorData where
  "demo_sensor = new_SensorData\<lparr>sensor_id := ''s1'', temperature := 30, location := ''Kitchen''\<rparr>"

text \<open>The entry of a sensor, or the default-constructed one when it has none.\<close>

definition sensor_of :: "ThermalIsolationTracker \<Rightarrow> string \<Rightarrow> SensorData" where
  "sensor_of st sid = (case map_of (sensors st) sid of None \<Rightarrow> new_SensorData | Some s \<Rightarrow> s)"

text \<open>A configuration whose lower temperature limit lies above the upper one.\<close>

definition inverted_config :: ThermalConfig where
  "inverted_config = default_config\<lparr>temp_min := 30, temp_max := 20\<rparr>"

definition warm_sensor :: SensorData where
  "warm_sensor = new_SensorData\<lparr>sensor_id := ''s1'', temperature := 25, humidity := 40\<rparr>"

definition cool_sensor :: SensorData where
  "cool_sensor = new_SensorData\<lparr>sensor_id := ''s1'', temperature := 20, humidity := 40,
     last_update := 60000000000, is_active := True\<rparr>"

definition demo_tracker :: ThermalIsolationTracker where
  "demo_tracker = new_tracker\<lparr>sensors := [(''s1'', cool_sensor)]\<rparr>"

text \<open>
  The rate of change as the specification words it: the temperature difference over the
  elapsed time in minutes. It is compared below with what \<^verbatim>\<open>process_sensor_data\<close> stores.
\<close>

definition claimed_rate :: "real \<Rightarrow> real \<Rightarrow> int \<Rightarrow> real" where
  "claimed_rate previous_temperature new_temperature elapsed =
     (new_temperature - previous_temperature) / (real_of_int elapsed / real_of_int ticks_per_minute)"

text \<open>
  The configuration of \<^verbatim>\<open>test_threshold_alerts\<close> in test_thermal_system.cpp, and two
  readings of one sensor by a new tracker: the first at the clock reading of one minute,
  the second \<open>elapsed\<close> ticks later.
\<close>

definition test_config :: ThermalConfig where
  "test_config = default_config\<lparr>temp_min := 18, temp_max := 26, humidity_max := 60,
     temp_rate_limit := 3 / 2, sensor_timeout_minutes := 1, alert_throttle_minutes := 1,
     sensor_locations := [''test_sensor_1'' \<mapsto> ''Test Room 1'', ''test_sensor_2'' \<mapsto> ''Test Room 2'']\<rparr>"

definition first_reading ::
  "ThermalConfig \<Rightarrow> string \<Rightarrow> real \<Rightarrow> real \<Rightarrow> ThermalIsolationTracker" where
  "first_reading cfg sid temp hum =
     snd (snd (process_sensor_data cfg 60000000000 sid temp hum [] new_tracker))"

definition second_reading ::
  "ThermalConfig \<Rightarrow> string \<Rightarrow> real \<Rightarrow> real \<Rightarrow> int \<Rightarrow> real
    \<Rightarrow> Alert list \<times> bool \<times> ThermalIsolationTracker" where
  "second_reading cfg sid temp0 hum elapsed temp1 =
     process_sensor_data cfg (60000000000 + elapsed) sid temp1 hum [] (first_reading cfg sid temp0 hum)"

text \<open>
  \<^verbatim>\<open>start\<close> and \<^verbatim>\<open>stop\<close> as far as the processor's data goes (the flag), and the
  sequences of calls a processor can see: a start, a stop, a submission, a worker's turn,
  or one of the setters below.
\<close>

definition start :: "DataProcessor \<Rightarrow> DataProcessor" where
  "start st = st\<lparr>running := True\<rparr>"

definition stop :: "DataProcessor \<Rightarrow> DataProcessor" where
  "stop st = st\<lparr>running := False\<rparr>"

text \<open>
  The setters: \<^verbatim>\<open>set_mqtt_callback\<close>, \<^verbatim>\<open>set_websocket_callback\<close> and
  \<^verbatim>\<open>set_alert_callback\<close> install a callback, \<^verbatim>\<open>enable_edge_analytics\<close> sets the flag.
\<close>

definition set_mqtt_callback :: "DataProcessor \<Rightarrow> DataProcessor" where
  "set_mqtt_callback st = st\<lparr>mqtt_callback_set := True\<rparr>"

definition set_websocket_callback :: "DataProcessor \<Rightarrow> DataProcessor" where
  "set_websocket_callback st = st\<lparr>websocket_callback_set := True\<rparr>"

definition set_alert_callback :: "DataProcessor \<Rightarrow> DataProcessor" where
  "set_alert_callback st = st\<lparr>alert_callback_set := True\<rparr>"

definition enable_edge_analytics_call :: "bool \<Rightarrow> DataProcessor \<Rightarrow> DataProcessor" where
  "enable_edge_analytics_call enable st = st\<lparr>edge_analytics_enabled := enable\<rparr>"

datatype dp_op =
  Start | Stop | Submit SensorDataPacket | Work time_point
  | Set_mqtt_callback | Set_websocket_callback | Set_alert_callback | Enable_edge_analytics bool

fun dp_step :: "RPi4GatewayConfig \<Rightarrow> dp_op \<Rightarrow> DataProcessor \<Rightarrow> DataProcessor" where
  "dp_step cfg Start st = start st"
| "dp_step cfg Stop st = stop st"
| "dp_step cfg (Submit packet) st = snd (process_packet cfg packet st)"
| "dp_step cfg (Work now) st = snd (worker_step cfg now st)"
| "dp_step cfg Set_mqtt_callback st = set_mqtt_callback st"
| "dp_step cfg Set_websocket_callback st = set_websocket_callback st"
| "dp_step cfg Set_alert_callback st = set_alert_callback st"
| "dp_step cfg (Enable_edge_analytics enable) st = enable_edge_analytics_call enable st"

definition run_ops :: "RPi4GatewayConfig \<Rightarrow> dp_op list \<Rightarrow> DataProcessor \<Rightarrow> DataProcessor" where
  "run_ops cfg ops st = fold (dp_step cfg) ops st"

definition demo_packet :: SensorDataPacket where
  "demo_packet = \<lparr>pkt_sensor_id = ''s1'', pkt_location = ''Kitchen'', temperature_celsius = 22,
     humidity_percent = 40, pressure_hpa = 1013, supply_voltage = 33 / 10, sensor_status = 0,
     raw_temp_adc = 0, raw_humidity_adc = 0, timestamp = 60000000000,
     interface_used = UART_INTERFACE, is_valid = True, signal_strength = 0,
     packet_sequence = 0, data_confidence = 1\<rparr>"

definition full_processor :: DataProcessor where
  "full_processor = (new_processor default_gateway_config)\<lparr>running := True, processing_queue := [demo_packet]\<rparr>"

definition small_queue_config :: RPi4GatewayConfig where
  "small_queue_config = default_gateway_config\<lparr>max_queue_size := 1\<rparr>"

text \<open>The processor with the full queue after \<^verbatim>\<open>stop\<close>, and a negative capacity.\<close>

definition stopped_processor :: DataProcessor where
  "stopped_processor = stop full_processor"

definition negative_queue_config :: RPi4GatewayConfig where
  "negative_queue_config = default_gateway_config\<lparr>max_queue_size := - 1\<rparr>"

text \<open>The last \<open>n\<close> elements of a list, in the order of the list.\<close>

definition last_n :: "nat \<Rightarrow> 'a list \<Rightarrow> 'a list" where
  "last_n n xs = drop (length xs - n) xs"

text \<open>
  What the tracker sees: a reading handed to \<^verbatim>\<open>process_sensor_data\<close> or a sweep by
  \<^verbatim>\<open>check_offline_sensors\<close>, each at a clock reading; \<open>run_tracker\<close> performs a sequence
  of them and collects the alerts. \<open>temperature_entries\<close> and \<open>humidity_entries\<close> are the
  history entries that the readings of one sensor contribute, in the order of application.
\<close>

datatype tracker_op = Reading time_point string real real string | Sweep time_point

fun tracker_step ::
  "ThermalConfig \<Rightarrow> tracker_op \<Rightarrow> ThermalIsolationTracker \<Rightarrow> Alert list \<times> ThermalIsolationTracker" where
  "tracker_step cfg (Reading now sid temp hum loc) st =
     (fst (process_sensor_data cfg now sid temp hum loc st),
      snd (snd (process_sensor_data cfg now sid temp hum loc st)))"
| "tracker_step cfg (Sweep now) st = check_offline_sensors cfg now st"

fun run_tracker ::
  "ThermalConfig \<Rightarrow> tracker_op list \<Rightarrow> ThermalIsolationTracker \<Rightarrow> Alert list \<times> ThermalIsolationTracker" where
  "run_tracker cfg [] st = ([], st)"
| "run_tracker cfg (op # ops) st =
     (fst (tracker_step cfg op st) @ fst (run_tracker cfg ops (snd (tracker_step cfg op st))),
      snd (run_tracker cfg ops (snd (tracker_step cfg op st))))"

fun temperature_entries :: "string \<Rightarrow> tracker_op list \<Rightarrow> TimestampedReading list" where
  "temperature_entries sid [] = []"
| "temperature_entries sid (Reading now s temp hum loc # ops) =
     (if s = sid then [\<lparr>reading_value = temp, reading_timestamp = now\<rparr>] else [])
     @ temperature_entries sid ops"
| "temperature_entries sid (Sweep now # ops) = temperature_entries sid ops"

fun humidity_entries :: "string \<Rightarrow> tracker_op list \<Rightarrow> TimestampedReading list" where
  "humidity_entries sid [] = []"
| "humidity_entries sid (Reading now s temp hum loc # ops) =
     (if s = sid then [\<lparr>reading_value = hum, reading_timestamp = now\<rparr>] else [])
     @ humidity_entries sid ops"
| "humidity_entries sid (Sweep now # ops) = humidity_entries sid ops"

text \<open>
  The stored history of a sensor of the processor, a sequence of packets handed to
  \<^verbatim>\<open>process_packet_internal\<close>, and the packets of it that belong in a sensor's history.
\<close>

definition history_of :: "DataProcessor \<Rightarrow> string \<Rightarrow> SensorDataPacket list" where
  "history_of st sid = (case map_of (sensor_history st) sid of None \<Rightarrow> [] | Some h \<Rightarrow> h)"

fun process_all_packets ::
  "RPi4GatewayConfig \<Rightarrow> (time_point \<times> SensorDataPacket) list \<Rightarrow> DataProcessor \<Rightarrow> DataProcessor" where
  "process_all_packets cfg [] st = st"
| "process_all_packets cfg ((now, packet) # ps) st =
     process_all_packets cfg ps (snd (process_packet_internal cfg now packet st))"

definition stored_packets :: "string \<Rightarrow> (time_point \<times> SensorDataPacket) list \<Rightarrow> SensorDataPacket list" where
  "stored_packets sid ps = filter (\<lambda>p. is_valid p \<and> pkt_sensor_id p = sid) (map snd ps)"

text \<open>What one turn of the loop of \<^verbatim>\<open>check_offline_sensors\<close> makes of an entry.\<close>

definition sweep_entry :: "ThermalConfig \<Rightarrow> time_point \<Rightarrow> SensorData \<Rightarrow> SensorData" where
  "sweep_entry cfg now sensor =
     (if is_active sensor
         \<and> duration_cast_minutes (now - last_update sensor) > sensor_timeout_minutes cfg
      then sensor\<lparr>is_active := False\<rparr> else sensor)"

definition tiny_history_config :: ThermalConfig where
  "tiny_history_config = default_config\<lparr>history_size := 2\<rparr>"









text \<open>
  The temperature and humidity values the statistics of a sensor hold, the events that are
  alerts, the error counter of a sensor (0 when it has no statistics), a packet whose
  validity flag is false, and a processor that has processed one valid packet.
\<close>

definition sensor_values :: "SensorStatistics \<Rightarrow> real \<times> real \<times> real \<times> real \<times> real" where
  "sensor_values s =
     (avg_temperature s, avg_humidity s, min_temperature s, max_temperature s, temperature_stddev s)"

fun is_alert_event :: "dp_event \<Rightarrow> bool" where
  "is_alert_event (Console_alert sid a) = True"
| "is_alert_event (Alert_callback sid a) = True"
| "is_alert_event e = False"

definition error_count :: "DataProcessor \<Rightarrow> string \<Rightarrow> nat" where
  "error_count st sid = (case sensor_stats st sid of None \<Rightarrow> 0 | Some s \<Rightarrow> error_packets s)"

definition invalid_packet :: SensorDataPacket where
  "invalid_packet = demo_packet\<lparr>temperature_celsius := 99, is_valid := False\<rparr>"

definition seen_processor :: DataProcessor where
  "seen_processor =
     snd (process_packet_internal default_gateway_config 70000000000 demo_packet
            (new_processor default_gateway_config))"

text \<open>
  The aggregated window as the specification words it: over the samples of the trailing
  window, the sample count, the count of valid samples, and over the valid samples the
  average, minimum and maximum temperature, the average humidity and the average pressure.
  It is compared below with what \<^verbatim>\<open>format_aggregated_data\<close> computes.
\<close>

definition aggregated_window :: "RPi4GatewayConfig \<Rightarrow> time_point \<Rightarrow> SensorDataPacket list \<Rightarrow> AggregatedData" where
  "aggregated_window cfg now samples =
     (let valid = filter is_valid samples
      in \<lparr>agg_sensor_id = pkt_sensor_id (hd samples), agg_location = pkt_location (hd samples),
          agg_timestamp = duration_cast_seconds now,
          window_seconds = aggregation_window_seconds cfg,
          sample_count = length samples, valid_count = length valid,
          temperature_avg = sum_list (map temperature_celsius valid) / real (length valid),
          temperature_min = Min (set (map temperature_celsius valid)),
          temperature_max = Max (set (map temperature_celsius valid)),
          humidity_avg = sum_list (map humidity_percent valid) / real (length valid),
          pressure_avg = sum_list (map pressure_hpa valid) / real (length valid),
          agg_gateway_id = gateway_id cfg\<rparr>)"

text \<open>
  The topic of a sensor's aggregated messages; the messages published on a topic; the
  aggregated records of a sensor among the messages sent to the WebSocket callback; and
  the invariant of the history map: distinct keys, and under each key valid packets of
  that sensor.
\<close>

definition aggregated_topic :: "RPi4GatewayConfig \<Rightarrow> string \<Rightarrow> string" where
  "aggregated_topic cfg sid = mqtt_base_topic cfg @ ''/sensors/'' @ sid @ ''/aggregated''"

fun mqtt_messages :: "string \<Rightarrow> dp_event list \<Rightarrow> dp_message list" where
  "mqtt_messages topic [] = []"
| "mqtt_messages topic (Mqtt_publish t m # es) =
     (if t = topic then [m] else []) @ mqtt_messages topic es"
| "mqtt_messages topic (e # es) = mqtt_messages topic es"

fun is_aggregate_of :: "string \<Rightarrow> dp_message \<Rightarrow> bool" where
  "is_aggregate_of sid (Aggregated_data a) = (agg_sensor_id a = sid)"
| "is_aggregate_of sid m = False"

fun websocket_aggregates :: "string \<Rightarrow> dp_event list \<Rightarrow> dp_message list" where
  "websocket_aggregates sid [] = []"
| "websocket_aggregates sid (WebSocket_send m # es) =
     (if is_aggregate_of sid m then [m] else []) @ websocket_aggregates sid es"
| "websocket_aggregates sid (e # es) = websocket_aggregates sid es"

definition history_ok :: "DataProcessor \<Rightarrow> bool" where
  "history_ok st \<longleftrightarrow>
     distinct (map fst (sensor_history st))
     \<and> (\<forall>k h. map_of (sensor_history st) k = Some h \<longrightarrow>
            (\<forall>p \<in> set h. is_valid p \<and> pkt_sensor_id p = k))"

text \<open>Ten samples of one sensor within one minute: average 22, minimum 20, maximum 24.\<close>

definition sample_packet :: "time_point \<Rightarrow> real \<Rightarrow> SensorDataPacket" where
  "sample_packet t temp = demo_packet\<lparr>timestamp := t, temperature_celsius := temp\<rparr>"

definition ten_samples :: "SensorDataPacket list" where
  "ten_samples =
     [sample_packet 1000000000 20, sample_packet 2000000000 20, sample_packet 3000000000 21,
      sample_packet 4000000000 21, sample_packet 5000000000 22, sample_packet 6000000000 22,
      sample_packet 7000000000 23, sample_packet 8000000000 23, sample_packet 9000000000 24,
      sample_packet 10000000000 24]"

definition ten_sample_processor :: DataProcessor where
  "ten_sample_processor =
     (new_processor default_gateway_config)
       \<lparr>running := True, sensor_history := [(''s1'', ten_samples)], mqtt_callback_set := True\<rparr>"




text \<open>
  A real that is a finite binary32 value: rounding leaves it as it is.
\<close>

definition is_float32 :: "real \<Rightarrow> bool" where
  "is_float32 x \<longleftrightarrow> round_float32 x = Finite x"









text \<open>The clock reading of an operation of the tracker.\<close>

fun op_time :: "tracker_op \<Rightarrow> time_point" where
  "op_time (Reading now sid temp hum loc) = now"
| "op_time (Sweep now) = now"

section \<open>Properties\<close>

subsection \<open>Alert throttling\<close>

lemma int_le_div_iff: "0 < (k::int) \<Longrightarrow> c \<le> d div k \<longleftrightarrow> c * k \<le> d"
proof
  assume k: "0 < k" and c: "c \<le> d div k"
  have "c * k \<le> (d div k) * k" using k c by (simp add: mult_right_mono)
  also have "\<dots> \<le> d" using k by (metis mult.commute pos_mod_sign minus_mod_eq_mult_div diff_le_eq le_add_same_cancel1)
  finally show "c * k \<le> d" .
next
  assume k: "0 < k" and c: "c * k \<le> d"
  define q where "q = d div k"
  define r where "r = d mod k"
  have d: "d = q * k + r" by (simp add: q_def r_def)
  have r: "r < k" using k by (simp add: r_def)
  have "c * k < q * k + k" using c d r by linarith
  then have "c * k < (q + 1) * k" by (simp add: algebra_simps)
  then have "c < q + 1" using k by (simp add: mult_less_cancel_right)
  then show "c \<le> d div k" by (simp add: q_def)
qed

lemma minutes_ge_iff:
  assumes "0 \<le> d"
  shows "c \<le> duration_cast_minutes d \<longleftrightarrow> c * ticks_per_minute \<le> d"
proof -
  have pos: "0 < ticks_per_minute" by (simp add: ticks_per_minute_def ticks_per_second_def)
  show ?thesis using assms int_le_div_iff [OF pos] by (simp add: duration_cast_minutes_def)
qed

lemma generate_alert_first:
  "throttle_lookup st sid ty = None \<Longrightarrow>
   generate_alert cfg now sid ty sensor st = ([make_alert now sid ty sensor], fired_state cfg now sid ty sensor st)"
  by (auto simp: generate_alert_def should_throttle_alert_def throttle_lookup_def make_alert_def fired_state_def Let_def split: option.splits)

lemma generate_alert_later:
  "throttle_lookup st sid ty = Some last_fired \<Longrightarrow>
   generate_alert cfg now sid ty sensor st =
     (if alert_throttle_minutes cfg \<le> duration_cast_minutes (now - last_fired) then
     ([make_alert now sid ty sensor], fired_state cfg now sid ty sensor st)
     else ([], st))"
  by (auto simp: generate_alert_def should_throttle_alert_def throttle_lookup_def make_alert_def fired_state_def Let_def map_upd_triv split: option.splits)

lemma throttle_lookup_fired:
  "throttle_lookup (fired_state cfg now sid ty sensor st) sid' ty' =
     (if sid' = sid \<and> ty' = ty then Some now else throttle_lookup st sid' ty')"
  by (auto simp: throttle_lookup_def fired_state_def split: option.splits)

lemma admit_all_spaced_aux:
  assumes "sorted (map fst rs)" and "\<forall>r \<in> set rs. t \<le> fst r" and "clock_bound t st"
  shows "spaced (alert_throttle_minutes cfg * ticks_per_minute) (fst (admit_all cfg rs st))
       \<and> (\<forall>a \<in> set (fst (admit_all cfg rs st)).
            case throttle_lookup st (alert_sensor_id a) (alert_type a) of
              None \<Rightarrow> True
            | Some last_fired \<Rightarrow> alert_throttle_minutes cfg * ticks_per_minute \<le> alert_timestamp a - last_fired)"
  using assms
proof (induction rs arbitrary: st t)
  case Nil
  then show ?case by simp
next
  case (Cons r rs)
  obtain now sid ty sensor where r: "r = (now, sid, ty, sensor)" by (cases r) auto
  let ?gap = "alert_throttle_minutes cfg * ticks_per_minute"
  have tnow: "t \<le> now" using Cons.prems(2) r by simp
  have sorted': "sorted (map fst rs)" and later: "\<forall>r \<in> set rs. now \<le> fst r"
    using Cons.prems(1) r by auto
  have bnow: "clock_bound now st" using Cons.prems(3) tnow unfolding clock_bound_def by force
  show ?case
  proof (cases "generate_alert cfg now sid ty sensor st = ([], st)")
    case True
    from Cons.IH [OF sorted' later bnow] True r show ?thesis by (simp split: prod.splits)
  next
    case False
    let ?a = "make_alert now sid ty sensor"
    let ?st1 = "fired_state cfg now sid ty sensor st"
    have gen: "generate_alert cfg now sid ty sensor st = ([?a], ?st1)"
      using False generate_alert_first [of st sid ty cfg now sensor] generate_alert_later [of st sid ty _ cfg now sensor]
      by (cases "throttle_lookup st sid ty") (auto split: if_splits)
    have fire_gap: "case throttle_lookup st sid ty of None \<Rightarrow> True | Some l \<Rightarrow> ?gap \<le> now - l"
    proof (cases "throttle_lookup st sid ty")
      case None then show ?thesis by simp
    next
      case (Some l)
      then have "l \<le> now" using bnow unfolding clock_bound_def by blast
      moreover have "alert_throttle_minutes cfg \<le> duration_cast_minutes (now - l)"
        using False generate_alert_later [OF Some, of cfg now sensor] by (auto split: if_splits)
      ultimately show ?thesis using Some minutes_ge_iff [of "now - l"] by simp
    qed
    have b1: "clock_bound now ?st1"
      using bnow unfolding clock_bound_def by (auto simp: throttle_lookup_fired split: if_splits)
    note IH = Cons.IH [OF sorted' later b1]
    let ?outs = "fst (admit_all cfg rs ?st1)"
    have out: "fst (admit_all cfg (r # rs) st) = ?a # ?outs"
      using gen r by (simp split: prod.splits)
    have head: "\<forall>b \<in> set ?outs. same_key ?a b \<longrightarrow> ?gap \<le> alert_timestamp b - alert_timestamp ?a"
    proof (intro ballI impI)
      fix b assume b: "b \<in> set ?outs" and k: "same_key ?a b"
      from IH b have "case throttle_lookup ?st1 (alert_sensor_id b) (alert_type b) of
              None \<Rightarrow> True | Some l \<Rightarrow> ?gap \<le> alert_timestamp b - l" by blast
      moreover have "alert_sensor_id b = sid" "alert_type b = ty"
        using k by (simp_all add: same_key_def make_alert_def)
      ultimately show "?gap \<le> alert_timestamp b - alert_timestamp ?a"
        by (simp add: throttle_lookup_fired make_alert_def)
    qed
    have rest: "\<forall>b \<in> set ?outs. case throttle_lookup st (alert_sensor_id b) (alert_type b) of
              None \<Rightarrow> True | Some l \<Rightarrow> ?gap \<le> alert_timestamp b - l"
    proof
      fix b assume b: "b \<in> set ?outs"
      from IH b have ih: "case throttle_lookup ?st1 (alert_sensor_id b) (alert_type b) of
              None \<Rightarrow> True | Some l \<Rightarrow> ?gap \<le> alert_timestamp b - l" by blast
      show "case throttle_lookup st (alert_sensor_id b) (alert_type b) of
              None \<Rightarrow> True | Some l \<Rightarrow> ?gap \<le> alert_timestamp b - l"
      proof (cases "alert_sensor_id b = sid \<and> alert_type b = ty")
        case False
        then show ?thesis using ih by (auto simp: throttle_lookup_fired split: if_splits)
      next
        case True
        then have g: "?gap \<le> alert_timestamp b - now" using ih by (simp add: throttle_lookup_fired)
        show ?thesis
        proof (cases "throttle_lookup st sid ty")
          case None then show ?thesis using True by simp
        next
          case (Some l)
          then have "l \<le> now" using bnow unfolding clock_bound_def by blast
          then show ?thesis using g Some True by simp
        qed
      qed
    qed
    have sp: "spaced ?gap (?a # ?outs)" using IH head by simp
    have fst_a: "case throttle_lookup st (alert_sensor_id ?a) (alert_type ?a) of
              None \<Rightarrow> True | Some l \<Rightarrow> ?gap \<le> alert_timestamp ?a - l"
      using fire_gap by (simp add: make_alert_def split: option.splits)
    have all: "\<forall>b \<in> set (?a # ?outs). case throttle_lookup st (alert_sensor_id b) (alert_type b) of
              None \<Rightarrow> True | Some l \<Rightarrow> ?gap \<le> alert_timestamp b - l"
      using rest fst_a by (metis set_ConsD)
    show ?thesis unfolding out using sp all by blast
  qed
qed


lemma spaced_nth:
  "spaced gap xs \<Longrightarrow> i < j \<Longrightarrow> j < length xs \<Longrightarrow> same_key (xs ! i) (xs ! j)
    \<Longrightarrow> gap \<le> alert_timestamp (xs ! j) - alert_timestamp (xs ! i)"
proof (induction xs arbitrary: i j)
  case Nil
  then show ?case by simp
next
  case (Cons a as)
  show ?case
  proof (cases i)
    case 0
    then obtain j' where j: "j = Suc j'" using Cons.prems(2) by (cases j) auto
    then have "as ! j' \<in> set as" using Cons.prems(3) by simp
    then show ?thesis using Cons.prems(1,4) 0 j by simp
  next
    case (Suc i')
    then obtain j' where j: "j = Suc j'" using Cons.prems(2) by (cases j) auto
    show ?thesis using Cons.IH [of i' j'] Cons.prems Suc j by simp
  qed
qed

lemma admit_all_spaced:
  assumes "sorted (map fst rs)"
    and "\<forall>sid ty l. throttle_lookup st sid ty = Some l \<longrightarrow> (\<forall>r \<in> set rs. l \<le> fst r)"
  shows "spaced (alert_throttle_minutes cfg * ticks_per_minute) (fst (admit_all cfg rs st))"
proof (cases rs)
  case Nil
  then show ?thesis by simp
next
  case (Cons r rs')
  have "\<forall>x \<in> set rs. fst r \<le> fst x" using assms(1) Cons by auto
  moreover have "clock_bound (fst r) st" using assms(2) Cons unfolding clock_bound_def by auto
  ultimately show ?thesis using admit_all_spaced_aux [OF assms(1), of "fst r" st cfg] by blast
qed

lemma generate_alert_state:
  "sensors (fired_state cfg now sid ty sensor st) = sensors st"
  "recent_alerts (fired_state cfg now sid ty sensor st) =
     push_bounded (max_alerts_history cfg) (make_alert now sid ty sensor) (recent_alerts st)"
  by (simp_all add: fired_state_def)

subsection \<open>Rate of change\<close>

lemma sensors_generate_alert [simp]:
  "sensors (snd (generate_alert cfg now sid ty sensor st)) = sensors st"
  by (simp add: generate_alert_def should_throttle_alert_def Let_def split: option.splits bool.splits)

lemma sensors_generate_alerts [simp]:
  "sensors (snd (generate_alerts cfg now sid sensor tys st)) = sensors st"
proof (induction tys arbitrary: st)
  case Nil
  then show ?case by simp
next
  case (Cons ty tys)
  have "sensors (snd (generate_alerts cfg now sid sensor tys (snd (generate_alert cfg now sid ty sensor st))))
      = sensors st"
    by (simp add: Cons.IH)
  then show ?case by (simp split: prod.splits) (metis snd_conv)
qed

lemma sensors_process_sensor_data:
  "sensors (snd (snd (process_sensor_data cfg now sid temp hum loc st)))
     = AList.update sid
         (apply_reading cfg now sid temp hum loc
            (case map_of (sensors st) sid of None \<Rightarrow> new_SensorData | Some s \<Rightarrow> s))
         (sensors st)"
proof -
  let ?sensor = "apply_reading cfg now sid temp hum loc
            (case map_of (sensors st) sid of None \<Rightarrow> new_SensorData | Some s \<Rightarrow> s)"
  let ?st1 = "st\<lparr>sensors := AList.update sid ?sensor (sensors st)\<rparr>"
  have "sensors (snd (check_thresholds cfg now sid ?sensor ?st1)) = sensors ?st1"
    by (simp add: check_thresholds_def)
  then show ?thesis
    by (simp add: process_sensor_data_def Let_def split: prod.splits) (metis snd_conv)
qed

lemma sensor_of_process_same:
  "sensor_of (snd (snd (process_sensor_data cfg now sid temp hum loc st))) sid
     = apply_reading cfg now sid temp hum loc (sensor_of st sid)"
  by (simp add: sensor_of_def sensors_process_sensor_data update_conv')

lemma sensor_of_process_other:
  "sid' \<noteq> sid \<Longrightarrow>
   sensor_of (snd (snd (process_sensor_data cfg now sid temp hum loc st))) sid' = sensor_of st sid'"
  by (simp add: sensor_of_def sensors_process_sensor_data update_conv')

lemma temp_rate_apply_reading:
  "temp_rate (apply_reading cfg now sid temp hum loc s) =
     (if last_update s \<noteq> 0 \<and> duration_cast_minutes (now - last_update s) > 0
      then (temp - temperature s) / real_of_int (duration_cast_minutes (now - last_update s))
      else temp_rate s)"
  by (simp add: apply_reading_def Let_def)

lemma apply_reading_fields [simp]:
  "temperature (apply_reading cfg now sid temp hum loc s) = temp"
  "humidity (apply_reading cfg now sid temp hum loc s) = hum"
  "last_update (apply_reading cfg now sid temp hum loc s) = now"
  "is_active (apply_reading cfg now sid temp hum loc s) = True"
  "sensor_id (apply_reading cfg now sid temp hum loc s) = sid"
  by (simp_all add: apply_reading_def Let_def)

text \<open>Less than one minute elapsed, or none, leaves the rate as it was.\<close>

lemma minutes_below_one: "d < ticks_per_minute \<Longrightarrow> duration_cast_minutes d \<le> 0"
  by (auto simp: duration_cast_minutes_def ticks_per_minute_def ticks_per_second_def
      pos_imp_zdiv_nonneg_iff div_pos_pos_trivial)

lemma temp_rate_below_one_minute:
  "now - last_update s < ticks_per_minute \<Longrightarrow>
   temp_rate (apply_reading cfg now sid temp hum loc s) = temp_rate s"
  using minutes_below_one [of "now - last_update s"] by (simp add: temp_rate_apply_reading)


lemma sensor_of_first_reading:
  "sensor_of (first_reading cfg sid temp hum) sid
     = apply_reading cfg 60000000000 sid temp hum [] new_SensorData"
  by (simp add: first_reading_def sensor_of_process_same) (simp add: sensor_of_def new_tracker_def)

lemma temp_rate_second_reading:
  "temp_rate (sensor_of (snd (snd (second_reading cfg sid temp0 hum elapsed temp1))) sid)
     = (if duration_cast_minutes elapsed > 0
        then (temp1 - temp0) / real_of_int (duration_cast_minutes elapsed) else 0)"
  by (simp add: second_reading_def sensor_of_process_same sensor_of_first_reading
      temp_rate_apply_reading)
     (simp add: new_SensorData_def)

lemma first_reading_eq:
  "first_reading test_config ''test_sensor_2'' 22 50
     = \<lparr>sensors = [(''test_sensor_2'',
          \<lparr>sensor_id = ''test_sensor_2'', temperature = 22, humidity = 50, location = ''Test Room 2'',
           last_update = 60000000000, is_active = True, temp_rate = 0,
           temperature_history = [\<lparr>reading_value = 22, reading_timestamp = 60000000000\<rparr>],
           humidity_history = [\<lparr>reading_value = 50, reading_timestamp = 60000000000\<rparr>]\<rparr>)],
        recent_alerts = [], alert_throttle = Map.empty\<rparr>"
proof -
  have a: "apply_reading test_config 60000000000 ''test_sensor_2'' 22 50 [] new_SensorData
      = \<lparr>sensor_id = ''test_sensor_2'', temperature = 22, humidity = 50, location = ''Test Room 2'',
           last_update = 60000000000, is_active = True, temp_rate = 0,
           temperature_history = [\<lparr>reading_value = 22, reading_timestamp = 60000000000\<rparr>],
           humidity_history = [\<lparr>reading_value = 50, reading_timestamp = 60000000000\<rparr>]\<rparr>"
    by (simp add: apply_reading_def new_SensorData_def get_sensor_location_def push_bounded_def
        test_config_def default_config_def Let_def)
  have c: "threshold_candidates test_config 60000000000
      \<lparr>sensor_id = ''test_sensor_2'', temperature = 22, humidity = 50, location = ''Test Room 2'',
           last_update = 60000000000, is_active = True, temp_rate = 0,
           temperature_history = [\<lparr>reading_value = 22, reading_timestamp = 60000000000\<rparr>],
           humidity_history = [\<lparr>reading_value = 50, reading_timestamp = 60000000000\<rparr>]\<rparr> = []"
    by (simp add: threshold_candidates_def test_config_def default_config_def duration_cast_minutes_def)
  show ?thesis
    by (simp add: first_reading_def process_sensor_data_def new_tracker_def a check_thresholds_def c Let_def)
qed

lemma rapid_rise_alerts:
  "map alert_type (fst (second_reading test_config ''test_sensor_2'' 22 50 100000000 27))
     = [TEMP_TOO_HIGH]"
proof -
  have m: "duration_cast_minutes 100000000 = 0"
    by (simp add: duration_cast_minutes_def ticks_per_minute_def ticks_per_second_def)
  have a: "apply_reading test_config 60100000000 ''test_sensor_2'' 27 50 []
       \<lparr>sensor_id = ''test_sensor_2'', temperature = 22, humidity = 50, location = ''Test Room 2'',
           last_update = 60000000000, is_active = True, temp_rate = 0,
           temperature_history = [\<lparr>reading_value = 22, reading_timestamp = 60000000000\<rparr>],
           humidity_history = [\<lparr>reading_value = 50, reading_timestamp = 60000000000\<rparr>]\<rparr>
      = \<lparr>sensor_id = ''test_sensor_2'', temperature = 27, humidity = 50, location = ''Test Room 2'',
           last_update = 60100000000, is_active = True, temp_rate = 0,
           temperature_history = [\<lparr>reading_value = 22, reading_timestamp = 60000000000\<rparr>,
                                  \<lparr>reading_value = 27, reading_timestamp = 60100000000\<rparr>],
           humidity_history = [\<lparr>reading_value = 50, reading_timestamp = 60000000000\<rparr>,
                               \<lparr>reading_value = 50, reading_timestamp = 60100000000\<rparr>]\<rparr>"
    by (simp add: apply_reading_def get_sensor_location_def push_bounded_def m
        test_config_def default_config_def Let_def)
  have c: "threshold_candidates test_config 60100000000
      \<lparr>sensor_id = ''test_sensor_2'', temperature = 27, humidity = 50, location = ''Test Room 2'',
           last_update = 60100000000, is_active = True, temp_rate = 0,
           temperature_history = th, humidity_history = hh\<rparr> = [TEMP_TOO_HIGH]" for th hh
    by (simp add: threshold_candidates_def test_config_def default_config_def duration_cast_minutes_def)
  show ?thesis
    by (simp add: second_reading_def first_reading_eq process_sensor_data_def a check_thresholds_def c
        generate_alert_def should_throttle_alert_def make_alert_def Let_def)
qed

text \<open>
  Claim C7. \<^verbatim>\<open>process_sensor_data\<close> divides the temperature difference by the whole minutes
  of the elapsed time (\<^verbatim>\<open>duration_cast<minutes>\<close> truncates), and only when that count is
  positive; the claimed rate divides by the elapsed time in minutes. The two agree when
  the elapsed time is a whole number of minutes, and the code departs from the claim
  elsewhere. Evaluated on two readings of a new sensor, 20 then 23: ninety seconds apart the
  stored rate is 3 where the claimed rate is 2; thirty seconds apart the rate stays 0 where
  the claimed rate is 6. The repository's own test of a rapid temperature change feeds 22
  then 27 a tenth of a second apart under a limit of 1.5 degrees per minute: the stored rate
  stays 0, where the claimed rate is 3000, and the only alert raised is \<open>TEMP_TOO_HIGH\<close>.
\<close>

theorem rate_of_change:
  "temp_rate (sensor_of (snd (snd (second_reading default_config ''s1'' 20 40 (seconds 90) 23))) ''s1'') = 3
   \<and> claimed_rate 20 23 (seconds 90) = 2
   \<and> temp_rate (sensor_of (snd (snd (second_reading default_config ''s1'' 20 40 (seconds 30) 23))) ''s1'') = 0
   \<and> claimed_rate 20 23 (seconds 30) = 6
   \<and> temp_rate (sensor_of (snd (snd (second_reading test_config ''test_sensor_2'' 22 50 100000000 27)))
        ''test_sensor_2'') = 0
   \<and> claimed_rate 22 27 100000000 = 3000
   \<and> temp_rate_limit test_config < 3000
   \<and> map alert_type (fst (second_reading test_config ''test_sensor_2'' 22 50 100000000 27))
       = [TEMP_TOO_HIGH]"
proof -
  have m: "duration_cast_minutes (seconds 90) = 1" "duration_cast_minutes (seconds 30) = 0"
    "duration_cast_minutes 100000000 = 0"
    by (simp_all add: duration_cast_minutes_def seconds_def ticks_per_minute_def ticks_per_second_def)
  have s: "claimed_rate 20 23 (seconds 90) = 2" "claimed_rate 20 23 (seconds 30) = 6"
    "claimed_rate 22 27 100000000 = 3000"
    by (simp_all add: claimed_rate_def seconds_def ticks_per_minute_def ticks_per_second_def)
  have l: "temp_rate_limit test_config < 3000" by (simp add: test_config_def)
  show ?thesis using s l by (simp add: temp_rate_second_reading m rapid_rise_alerts)
qed


subsection \<open>Threshold evaluation\<close>

lemma count_list_append: "count_list (xs @ ys) a = count_list xs a + count_list ys a"
  by (induction xs) auto

text \<open>
  Claim C4, as amended. The candidates of one snapshot contain \<open>TEMP_TOO_LOW\<close> once exactly
  when the temperature is below \<open>temp_min\<close>; \<open>TEMP_TOO_HIGH\<close> once exactly when the
  temperature is above \<open>temp_max\<close> and not below \<open>temp_min\<close> (the two temperature rules are
  one if / else-if chain); \<open>HUMIDITY_TOO_HIGH\<close> once exactly when the humidity is above
  \<open>humidity_max\<close>, whatever the temperature rules give. When \<open>temp_min \<le> temp_max\<close>,
  \<open>TEMP_TOO_HIGH\<close> is there exactly when the temperature is above \<open>temp_max\<close>. With
  \<open>temp_max = 28\<close> and \<open>temp_min\<close> at most 30, a reading of 30 gives exactly one
  \<open>TEMP_TOO_HIGH\<close> candidate.
\<close>

theorem threshold_rules:
  "count_list (threshold_candidates cfg now sensor) TEMP_TOO_LOW
      = (if temperature sensor < temp_min cfg then 1 else 0)
   \<and> count_list (threshold_candidates cfg now sensor) TEMP_TOO_HIGH
      = (if temperature sensor > temp_max cfg \<and> \<not> temperature sensor < temp_min cfg then 1 else 0)
   \<and> count_list (threshold_candidates cfg now sensor) HUMIDITY_TOO_HIGH
      = (if humidity sensor > humidity_max cfg then 1 else 0)
   \<and> (temp_min cfg \<le> temp_max cfg \<longrightarrow>
        count_list (threshold_candidates cfg now sensor) TEMP_TOO_HIGH
          = (if temperature sensor > temp_max cfg then 1 else 0))
   \<and> (temp_max cfg = 28 \<and> temp_min cfg \<le> 30 \<and> temperature sensor = 30 \<longrightarrow>
        count_list (threshold_candidates cfg now sensor) TEMP_TOO_HIGH = 1)"
  by (simp add: threshold_candidates_def count_list_append)

theorem threshold_rules_witness:
  "temp_max default_config = 28 \<and> temp_min default_config \<le> 30
   \<and> temperature (new_SensorData\<lparr>temperature := 30\<rparr>) = 30
   \<and> count_list (threshold_candidates default_config 0 (new_SensorData\<lparr>temperature := 30\<rparr>)) TEMP_TOO_HIGH = 1"
  using threshold_rules [of default_config 0 "new_SensorData\<lparr>temperature := 30\<rparr>"]
  by (simp add: default_config_def)

text \<open>
  The claim as stated fails where \<open>temp_min\<close> lies above \<open>temp_max\<close>: a temperature between
  the two is above \<open>temp_max\<close> and yields \<open>TEMP_TOO_LOW\<close> only.
\<close>

theorem threshold_rules_counterexample:
  "\<not> (TEMP_TOO_HIGH \<in> set (threshold_candidates inverted_config 0 warm_sensor)
        \<longleftrightarrow> temperature warm_sensor > temp_max inverted_config)"
  by (simp add: threshold_candidates_def inverted_config_def warm_sensor_def default_config_def
      new_SensorData_def duration_cast_minutes_def)

subsection \<open>Statistics queries for an unknown sensor\<close>

text \<open>
  Claim C10. For a sensor id that the tracker's store does not hold, \<^verbatim>\<open>get_sensor_stats\<close>
  returns the zero-initialised \<^verbatim>\<open>SensorStats\<close>, with empty \<open>sensor_id\<close> and \<open>location\<close>, and
  leaves the tracker as it was; \<^verbatim>\<open>DataProcessor::get_sensor_statistics\<close> returns the
  zero-initialised record with the requested id written into it.
\<close>

theorem unknown_sensor_statistics:
  "(map_of (sensors st) sid = None \<longrightarrow>
      get_sensor_stats now sid st =
        (\<lparr>stats_sensor_id = [], stats_location = [], current_temp = 0, current_humidity = 0,
          avg_temp = 0, min_temp = 0, max_temp = 0, uptime_minutes = 0\<rparr>, st))
   \<and> (sensor_stats dp sid = None \<longrightarrow>
      get_sensor_statistics sid dp =
        (\<lparr>st_sensor_id = sid, total_packets = 0, valid_packets = 0, error_packets = 0,
          packet_loss_rate = 0, avg_temperature = 0, avg_humidity = 0, min_temperature = 0,
          max_temperature = 0, temperature_stddev = 0, st_last_update = 0, first_seen = 0\<rparr>, dp))"
  by (simp add: get_sensor_stats_def get_sensor_statistics_def zero_SensorStats_def
      zero_SensorStatistics_def)

theorem unknown_sensor_statistics_witness:
  "map_of (sensors demo_tracker) ''s2'' = None
   \<and> stats_sensor_id (fst (get_sensor_stats 5 ''s2'' demo_tracker)) = []
   \<and> snd (get_sensor_stats 5 ''s2'' demo_tracker) = demo_tracker
   \<and> sensor_stats (new_processor default_gateway_config) ''s2'' = None
   \<and> st_sensor_id (fst (get_sensor_statistics ''s2'' (new_processor default_gateway_config))) = ''s2''"
  using unknown_sensor_statistics [where st = demo_tracker and sid = "''s2''"
      and dp = "new_processor default_gateway_config" and now = 5]
  by (simp add: demo_tracker_def new_tracker_def new_processor_def)

subsection \<open>The bounded processing queue\<close>

lemma queue_update_statistics [simp]:
  "processing_queue (update_statistics packet st) = processing_queue st"
  by (simp add: update_statistics_def Let_def)

lemma queue_store_in_history [simp]:
  "processing_queue (store_in_history cfg packet st) = processing_queue st"
  by (simp add: store_in_history_def Let_def)

lemma queue_perform_edge_analytics [simp]:
  "processing_queue (perform_edge_analytics now packet st) = processing_queue st"
  by (simp add: perform_edge_analytics_def Let_def split: option.splits)

lemma queue_process_packet_internal [simp]:
  "processing_queue (snd (process_packet_internal cfg now packet st)) = processing_queue st"
  by (simp add: process_packet_internal_def Let_def)

lemma queue_bound_step:
  "length (processing_queue st) \<le> size_t_of_int (max_queue_size cfg) \<Longrightarrow>
   length (processing_queue (dp_step cfg op st)) \<le> size_t_of_int (max_queue_size cfg)"
  by (cases op)
     (auto simp: start_def stop_def process_packet_def worker_step_def set_mqtt_callback_def
        set_websocket_callback_def set_alert_callback_def enable_edge_analytics_call_def
        split: list.splits)

lemma queue_bound_run:
  "length (processing_queue st) \<le> size_t_of_int (max_queue_size cfg) \<Longrightarrow>
   length (processing_queue (run_ops cfg ops st)) \<le> size_t_of_int (max_queue_size cfg)"
  unfolding run_ops_def
  by (induction ops arbitrary: st) (simp_all add: queue_bound_step)

lemma size_t_of_int_nonneg: "0 \<le> i \<Longrightarrow> i < 2 ^ 64 \<Longrightarrow> size_t_of_int i = nat i"
  by (simp add: size_t_of_int_def)

lemma size_t_of_int_neg:
  assumes "- (2 ^ 64) \<le> i" and "i < 0"
  shows "size_t_of_int i = nat (2 ^ 64 + i)"
proof -
  have "i mod 2 ^ 64 = (2 ^ 64 + i) mod 2 ^ 64" by simp
  also have "\<dots> = 2 ^ 64 + i" using assms by (intro mod_pos_pos_trivial) simp_all
  finally show ?thesis by (simp add: size_t_of_int_def)
qed

text \<open>
  Claim C5, as amended. A submission to a processor whose queue already holds the capacity
  (or more) returns at once, whether the processor runs or not: the packet is not enqueued
  and the processor (queue, histories, statistics) is as it was; no counter of drops exists.
  A running processor reports the drop on the console; a stopped processor reports nothing,
  and it drops every submission, whatever its queue holds. A submission to a running
  processor below the capacity appends the packet. The queue never holds more than the
  capacity: the bound is kept by every start, stop, submission, worker turn and setter, and
  holds from construction on. The capacity is \<^verbatim>\<open>static_cast<size_t>(max_queue_size)\<close>: for an
  \<^verbatim>\<open>int\<close> that is not negative the number itself, for a negative one \<open>2^64\<close> more.
\<close>

theorem queue_saturation:
  "(length (processing_queue st) \<ge> size_t_of_int (max_queue_size cfg) \<longrightarrow>
      process_packet cfg packet st
        = (if running st then [Console_queue_full (pkt_sensor_id packet)] else [], st))
   \<and> (\<not> running st \<longrightarrow> process_packet cfg packet st = ([], st))
   \<and> (running st \<and> length (processing_queue st) < size_t_of_int (max_queue_size cfg) \<longrightarrow>
      process_packet cfg packet st = ([], st\<lparr>processing_queue := processing_queue st @ [packet]\<rparr>))
   \<and> (length (processing_queue st) \<le> size_t_of_int (max_queue_size cfg) \<longrightarrow>
      length (processing_queue (run_ops cfg ops st)) \<le> size_t_of_int (max_queue_size cfg))
   \<and> length (processing_queue (run_ops cfg ops (new_processor cfg))) \<le> size_t_of_int (max_queue_size cfg)
   \<and> (0 \<le> max_queue_size cfg \<and> max_queue_size cfg < 2 ^ 31 \<longrightarrow>
      size_t_of_int (max_queue_size cfg) = nat (max_queue_size cfg))
   \<and> (- (2 ^ 31) \<le> max_queue_size cfg \<and> max_queue_size cfg < 0 \<longrightarrow>
      size_t_of_int (max_queue_size cfg) = nat (2 ^ 64 + max_queue_size cfg))"
proof -
  have "length (processing_queue (new_processor cfg)) \<le> size_t_of_int (max_queue_size cfg)"
    by (simp add: new_processor_def)
  moreover have "0 \<le> max_queue_size cfg \<and> max_queue_size cfg < 2 ^ 31 \<longrightarrow>
      size_t_of_int (max_queue_size cfg) = nat (max_queue_size cfg)"
    by (simp add: size_t_of_int_nonneg)
  moreover have "- (2 ^ 31) \<le> max_queue_size cfg \<and> max_queue_size cfg < 0 \<longrightarrow>
      size_t_of_int (max_queue_size cfg) = nat (2 ^ 64 + max_queue_size cfg)"
    by (simp add: size_t_of_int_neg)
  ultimately show ?thesis
    using queue_bound_run [of st cfg ops] queue_bound_run [of "new_processor cfg" cfg ops]
    by (simp add: process_packet_def)
qed

theorem queue_saturation_witness:
  "running full_processor
   \<and> length (processing_queue full_processor) \<ge> size_t_of_int (max_queue_size small_queue_config)
   \<and> process_packet small_queue_config demo_packet full_processor = ([Console_queue_full ''s1''], full_processor)
   \<and> length (processing_queue (run_ops small_queue_config [Submit demo_packet, Submit demo_packet] full_processor)) \<le> 1
   \<and> \<not> running stopped_processor
   \<and> length (processing_queue stopped_processor) \<ge> size_t_of_int (max_queue_size small_queue_config)
   \<and> process_packet small_queue_config demo_packet stopped_processor = ([], stopped_processor)
   \<and> length (processing_queue (run_ops small_queue_config [Start, Submit demo_packet, Submit demo_packet]
         (new_processor small_queue_config))) \<le> 1
   \<and> size_t_of_int (max_queue_size negative_queue_config) = 18446744073709551615"
  using queue_saturation [where st = full_processor and cfg = small_queue_config and packet = demo_packet
      and ops = "[Submit demo_packet, Submit demo_packet]"]
    queue_saturation [where st = stopped_processor and cfg = small_queue_config and packet = demo_packet
      and ops = "[Start, Submit demo_packet, Submit demo_packet]"]
    queue_saturation [where st = stopped_processor and cfg = negative_queue_config and packet = demo_packet
      and ops = "[]"]
  by (simp add: full_processor_def stopped_processor_def stop_def small_queue_config_def
      negative_queue_config_def default_gateway_config_def new_processor_def demo_packet_def
      size_t_of_int_def)

text \<open>
  The claim as stated fails: the rejected submission leaves the whole processor unchanged,
  so nothing that counts drops is incremented.
\<close>

theorem queue_saturation_counterexample:
  "\<not> (\<exists>drop_counter :: DataProcessor \<Rightarrow> nat.
        drop_counter (snd (process_packet small_queue_config demo_packet full_processor))
          = drop_counter full_processor + 1)"
proof -
  have "snd (process_packet small_queue_config demo_packet full_processor) = full_processor"
    by (simp add: process_packet_def full_processor_def small_queue_config_def
        default_gateway_config_def size_t_of_int_def new_processor_def)
  then show ?thesis by simp
qed

subsection \<open>Bounded histories\<close>

lemma push_bounded_last_n:
  assumes "length xs \<le> n"
  shows "push_bounded n x xs = last_n n (xs @ [x])"
proof (cases "length xs < n")
  case True
  then show ?thesis by (simp add: push_bounded_def last_n_def Let_def)
next
  case False
  then have n: "length xs = n" using assms by simp
  have "last_n n (xs @ [x]) = drop (Suc 0) (xs @ [x])" using n by (simp add: last_n_def)
  also have "\<dots> = tl (xs @ [x])" by (cases xs) simp_all
  finally show ?thesis using n by (simp add: push_bounded_def Let_def)
qed

lemma last_n_append: "last_n n (last_n n xs @ ys) = last_n n (xs @ ys)"
proof (cases "length xs \<le> n")
  case True
  then show ?thesis by (simp add: last_n_def)
next
  case False
  define k where "k = length xs - n"
  have k: "length xs = k + n" using False by (simp add: k_def)
  have "last_n n (last_n n xs @ ys) = drop (length ys) (drop k xs @ ys)"
    using k by (simp add: last_n_def)
  also have "\<dots> = drop (length ys) (drop k (xs @ ys))" using k by simp
  also have "\<dots> = drop (k + length ys) (xs @ ys)" by (simp only: drop_drop add.commute)
  also have "\<dots> = last_n n (xs @ ys)" using k by (simp add: last_n_def)
  finally show ?thesis .
qed

lemma length_last_n: "length (last_n n xs) \<le> n"
  by (simp add: last_n_def)

lemma last_n_all: "length xs \<le> n \<Longrightarrow> last_n n xs = xs"
  by (simp add: last_n_def)


lemma history_apply_reading:
  "temperature_history (apply_reading cfg now sid temp hum loc s)
     = push_bounded (history_size cfg) \<lparr>reading_value = temp, reading_timestamp = now\<rparr>
         (temperature_history s)"
  "humidity_history (apply_reading cfg now sid temp hum loc s)
     = push_bounded (history_size cfg) \<lparr>reading_value = hum, reading_timestamp = now\<rparr>
         (humidity_history s)"
  by (simp_all add: apply_reading_def Let_def)

lemma offline_loop_sensors:
  "fst (snd (offline_loop cfg now xs st)) = map (\<lambda>(sid, s). (sid, sweep_entry cfg now s)) xs"
proof (induction xs arbitrary: st)
  case Nil
  then show ?case by simp
next
  case (Cons x xs)
  obtain sid s where x: "x = (sid, s)" by (cases x)
  show ?case
  proof (cases "is_active s
         \<and> duration_cast_minutes (now - last_update s) > sensor_timeout_minutes cfg")
    case True
    obtain out st1 where g: "generate_alert cfg now sid SENSOR_OFFLINE (s\<lparr>is_active := False\<rparr>) st = (out, st1)"
      by (cases "generate_alert cfg now sid SENSOR_OFFLINE (s\<lparr>is_active := False\<rparr>) st")
    obtain outs rest1 st2 where l: "offline_loop cfg now xs st1 = (outs, rest1, st2)"
      by (cases "offline_loop cfg now xs st1")
    have "rest1 = map (\<lambda>(sid, s). (sid, sweep_entry cfg now s)) xs"
      using Cons.IH [of st1] l by simp
    then show ?thesis using True by (simp add: x g l sweep_entry_def)
  next
    case False
    obtain outs rest1 st2 where l: "offline_loop cfg now xs st = (outs, rest1, st2)"
      by (cases "offline_loop cfg now xs st")
    have "rest1 = map (\<lambda>(sid, s). (sid, sweep_entry cfg now s)) xs"
      using Cons.IH [of st] l by simp
    then show ?thesis using False by (auto simp add: x l sweep_entry_def)
  qed
qed

lemma sensors_check_offline:
  "sensors (snd (check_offline_sensors cfg now st))
     = map (\<lambda>(sid, s). (sid, sweep_entry cfg now s)) (sensors st)"
  using offline_loop_sensors [of cfg now "sensors st" st]
  by (cases "offline_loop cfg now (sensors st) st") (simp add: check_offline_sensors_def)

lemma sensor_of_check_offline:
  "sensor_of (snd (check_offline_sensors cfg now st)) sid
     = (case map_of (sensors st) sid of None \<Rightarrow> new_SensorData | Some s \<Rightarrow> sweep_entry cfg now s)"
  by (simp add: sensor_of_def sensors_check_offline map_of_map split: option.splits)

lemma history_sweep_entry [simp]:
  "temperature_history (sweep_entry cfg now s) = temperature_history s"
  "humidity_history (sweep_entry cfg now s) = humidity_history s"
  by (simp_all add: sweep_entry_def)

lemma history_check_offline:
  "temperature_history (sensor_of (snd (check_offline_sensors cfg now st)) sid)
     = temperature_history (sensor_of st sid)"
  "humidity_history (sensor_of (snd (check_offline_sensors cfg now st)) sid)
     = humidity_history (sensor_of st sid)"
  unfolding sensor_of_check_offline
  by (simp_all add: sensor_of_def split: option.splits)

lemma tracker_step_history:
  "length (temperature_history (sensor_of st sid)) \<le> history_size cfg \<Longrightarrow>
   temperature_history (sensor_of (snd (tracker_step cfg op st)) sid)
     = last_n (history_size cfg) (temperature_history (sensor_of st sid) @ temperature_entries sid [op])"
  "length (humidity_history (sensor_of st sid)) \<le> history_size cfg \<Longrightarrow>
   humidity_history (sensor_of (snd (tracker_step cfg op st)) sid)
     = last_n (history_size cfg) (humidity_history (sensor_of st sid) @ humidity_entries sid [op])"
proof -
  show "length (temperature_history (sensor_of st sid)) \<le> history_size cfg \<Longrightarrow>
   temperature_history (sensor_of (snd (tracker_step cfg op st)) sid)
     = last_n (history_size cfg) (temperature_history (sensor_of st sid) @ temperature_entries sid [op])"
  proof (cases op)
    case (Reading now s temp hum loc)
    assume len: "length (temperature_history (sensor_of st sid)) \<le> history_size cfg"
    have eq: "snd (tracker_step cfg op st) = snd (snd (process_sensor_data cfg now s temp hum loc st))"
      by (simp add: Reading)
    show ?thesis
    proof (cases "s = sid")
      case True
      then show ?thesis using len
        by (simp add: eq Reading sensor_of_process_same history_apply_reading push_bounded_last_n)
    next
      case False
      then show ?thesis using len
        by (simp add: eq Reading sensor_of_process_other last_n_all)
    qed
  next
    case (Sweep now)
    assume len: "length (temperature_history (sensor_of st sid)) \<le> history_size cfg"
    then show ?thesis
      by (simp add: Sweep history_check_offline last_n_all)
  qed
  show "length (humidity_history (sensor_of st sid)) \<le> history_size cfg \<Longrightarrow>
   humidity_history (sensor_of (snd (tracker_step cfg op st)) sid)
     = last_n (history_size cfg) (humidity_history (sensor_of st sid) @ humidity_entries sid [op])"
  proof (cases op)
    case (Reading now s temp hum loc)
    assume len: "length (humidity_history (sensor_of st sid)) \<le> history_size cfg"
    have eq: "snd (tracker_step cfg op st) = snd (snd (process_sensor_data cfg now s temp hum loc st))"
      by (simp add: Reading)
    show ?thesis
    proof (cases "s = sid")
      case True
      then show ?thesis using len
        by (simp add: eq Reading sensor_of_process_same history_apply_reading push_bounded_last_n)
    next
      case False
      then show ?thesis using len
        by (simp add: eq Reading sensor_of_process_other last_n_all)
    qed
  next
    case (Sweep now)
    assume len: "length (humidity_history (sensor_of st sid)) \<le> history_size cfg"
    then show ?thesis
      by (simp add: Sweep history_check_offline last_n_all)
  qed
qed

lemma temperature_entries_Cons:
  "temperature_entries sid (op # ops) = temperature_entries sid [op] @ temperature_entries sid ops"
  "humidity_entries sid (op # ops) = humidity_entries sid [op] @ humidity_entries sid ops"
  by (cases op; simp)+

lemma run_tracker_history:
  "length (temperature_history (sensor_of st sid)) \<le> history_size cfg \<Longrightarrow>
   temperature_history (sensor_of (snd (run_tracker cfg ops st)) sid)
     = last_n (history_size cfg) (temperature_history (sensor_of st sid) @ temperature_entries sid ops)"
proof (induction ops arbitrary: st)
  case Nil
  then show ?case by (simp add: last_n_all)
next
  case (Cons op ops)
  let ?st1 = "snd (tracker_step cfg op st)"
  have h1: "temperature_history (sensor_of ?st1 sid)
     = last_n (history_size cfg) (temperature_history (sensor_of st sid) @ temperature_entries sid [op])"
    using Cons.prems by (rule tracker_step_history)
  then have len1: "length (temperature_history (sensor_of ?st1 sid)) \<le> history_size cfg"
    by (simp add: length_last_n)
  have run: "snd (run_tracker cfg (op # ops) st) = snd (run_tracker cfg ops ?st1)"
    by simp
  show ?case
    unfolding run Cons.IH [OF len1] h1 last_n_append
    by (simp add: temperature_entries_Cons(1) [of sid op ops])
qed

lemma run_tracker_humidity:
  "length (humidity_history (sensor_of st sid)) \<le> history_size cfg \<Longrightarrow>
   humidity_history (sensor_of (snd (run_tracker cfg ops st)) sid)
     = last_n (history_size cfg) (humidity_history (sensor_of st sid) @ humidity_entries sid ops)"
proof (induction ops arbitrary: st)
  case Nil
  then show ?case by (simp add: last_n_all)
next
  case (Cons op ops)
  let ?st1 = "snd (tracker_step cfg op st)"
  have h1: "humidity_history (sensor_of ?st1 sid)
     = last_n (history_size cfg) (humidity_history (sensor_of st sid) @ humidity_entries sid [op])"
    using Cons.prems by (rule tracker_step_history)
  then have len1: "length (humidity_history (sensor_of ?st1 sid)) \<le> history_size cfg"
    by (simp add: length_last_n)
  have run: "snd (run_tracker cfg (op # ops) st) = snd (run_tracker cfg ops ?st1)"
    by simp
  show ?case
    unfolding run Cons.IH [OF len1] h1 last_n_append
    by (simp add: temperature_entries_Cons(2) [of sid op ops])
qed


lemma history_update_statistics [simp]:
  "sensor_history (update_statistics packet st) = sensor_history st"
  by (simp add: update_statistics_def Let_def)

lemma history_perform_edge_analytics [simp]:
  "sensor_history (perform_edge_analytics now packet st) = sensor_history st"
  by (simp add: perform_edge_analytics_def Let_def split: option.splits)

lemma history_process_packet_internal:
  "sensor_history (snd (process_packet_internal cfg now packet st))
     = (if is_valid packet
        then AList.update (pkt_sensor_id packet)
               (push_bounded (size_t_of_int (max_sensor_history cfg)) packet
                  (history_of st (pkt_sensor_id packet)))
               (sensor_history st)
        else sensor_history st)"
  by (simp add: process_packet_internal_def store_in_history_def history_of_def Let_def)

lemma history_of_process_packet_internal:
  "history_of (snd (process_packet_internal cfg now packet st)) sid
     = (if is_valid packet \<and> pkt_sensor_id packet = sid
        then push_bounded (size_t_of_int (max_sensor_history cfg)) packet (history_of st sid)
        else history_of st sid)"
  unfolding history_of_def [of "snd (process_packet_internal cfg now packet st)"]
    history_process_packet_internal
  by (simp add: update_conv' history_of_def)

lemma process_all_packets_history:
  "length (history_of st sid) \<le> size_t_of_int (max_sensor_history cfg) \<Longrightarrow>
   history_of (process_all_packets cfg ps st) sid
     = last_n (size_t_of_int (max_sensor_history cfg)) (history_of st sid @ stored_packets sid ps)"
proof (induction ps arbitrary: st)
  case Nil
  then show ?case by (simp add: stored_packets_def last_n_all)
next
  case (Cons x ps)
  obtain now packet where x: "x = (now, packet)" by (cases x)
  let ?cap = "size_t_of_int (max_sensor_history cfg)"
  let ?st1 = "snd (process_packet_internal cfg now packet st)"
  have h1: "history_of ?st1 sid = last_n ?cap (history_of st sid @ stored_packets sid [x])"
    using Cons.prems
    by (simp add: history_of_process_packet_internal x stored_packets_def push_bounded_last_n last_n_all)
  then have len1: "length (history_of ?st1 sid) \<le> ?cap" by (simp add: length_last_n)
  have sp: "stored_packets sid (x # ps) = stored_packets sid [x] @ stored_packets sid ps"
    by (simp add: stored_packets_def)
  have run: "process_all_packets cfg (x # ps) st = process_all_packets cfg ps ?st1"
    by (simp add: x)
  show ?case
    unfolding run Cons.IH [OF len1] h1 last_n_append sp by simp
qed

text \<open>
  Claim C3. Along every sequence of readings (and sweeps) the temperature history and the
  humidity history of a sensor hold the last \<open>history_size\<close> of the entries that were
  there and that the sensor's readings added, in the order of application, so the oldest
  leaves first and the length never exceeds \<open>history_size\<close>; from a new tracker they are
  the last \<open>history_size\<close> readings of the sensor. The packet history of the processor
  does the same with the valid packets of the sensor and the bound \<open>max_sensor_history\<close>
  (read as a \<^verbatim>\<open>size_t\<close>).
\<close>

theorem history_bounded_fifo:
  "(length (temperature_history (sensor_of st sid)) \<le> history_size cfg \<longrightarrow>
      temperature_history (sensor_of (snd (run_tracker cfg ops st)) sid)
        = last_n (history_size cfg) (temperature_history (sensor_of st sid) @ temperature_entries sid ops)
      \<and> length (temperature_history (sensor_of (snd (run_tracker cfg ops st)) sid)) \<le> history_size cfg)
   \<and> (length (humidity_history (sensor_of st sid)) \<le> history_size cfg \<longrightarrow>
      humidity_history (sensor_of (snd (run_tracker cfg ops st)) sid)
        = last_n (history_size cfg) (humidity_history (sensor_of st sid) @ humidity_entries sid ops)
      \<and> length (humidity_history (sensor_of (snd (run_tracker cfg ops st)) sid)) \<le> history_size cfg)
   \<and> temperature_history (sensor_of (snd (run_tracker cfg ops new_tracker)) sid)
        = last_n (history_size cfg) (temperature_entries sid ops)
   \<and> humidity_history (sensor_of (snd (run_tracker cfg ops new_tracker)) sid)
        = last_n (history_size cfg) (humidity_entries sid ops)
   \<and> (length (history_of dp sid) \<le> size_t_of_int (max_sensor_history gcfg) \<longrightarrow>
      history_of (process_all_packets gcfg ps dp) sid
        = last_n (size_t_of_int (max_sensor_history gcfg)) (history_of dp sid @ stored_packets sid ps)
      \<and> length (history_of (process_all_packets gcfg ps dp) sid) \<le> size_t_of_int (max_sensor_history gcfg))
   \<and> history_of (process_all_packets gcfg ps (new_processor gcfg)) sid
        = last_n (size_t_of_int (max_sensor_history gcfg)) (stored_packets sid ps)"
proof -
  have t0: "temperature_history (sensor_of new_tracker sid) = []"
    and h0: "humidity_history (sensor_of new_tracker sid) = []"
    by (simp_all add: sensor_of_def new_tracker_def new_SensorData_def)
  have p0: "history_of (new_processor gcfg) sid = []"
    by (simp add: history_of_def new_processor_def)
  show ?thesis
    using run_tracker_history [of st sid cfg ops] run_tracker_humidity [of st sid cfg ops]
      run_tracker_history [of new_tracker sid cfg ops] run_tracker_humidity [of new_tracker sid cfg ops]
      process_all_packets_history [of dp sid gcfg ps]
      process_all_packets_history [of "new_processor gcfg" sid gcfg ps]
    by (simp add: t0 h0 p0 length_last_n)
qed

theorem history_bounded_fifo_witness:
  "length (temperature_history (sensor_of new_tracker ''s1'')) \<le> history_size tiny_history_config
   \<and> map reading_value (temperature_history (sensor_of (snd (run_tracker tiny_history_config
        [Reading 10 ''s1'' 20 40 [], Reading 20 ''s1'' 21 41 [], Sweep 25, Reading 30 ''s1'' 22 42 []]
        new_tracker)) ''s1'')) = [21, 22]
   \<and> length (history_of (new_processor default_gateway_config) ''s1'')
        \<le> size_t_of_int (max_sensor_history default_gateway_config)"
  using history_bounded_fifo [where st = new_tracker and sid = "''s1''" and cfg = tiny_history_config
      and ops = "[Reading 10 ''s1'' 20 40 [], Reading 20 ''s1'' 21 41 [], Sweep 25, Reading 30 ''s1'' 22 42 []]"
      and dp = "new_processor default_gateway_config" and gcfg = default_gateway_config and ps = "[]"]
  by (simp add: sensor_of_def new_tracker_def new_SensorData_def tiny_history_config_def
      default_config_def last_n_def history_of_def new_processor_def)

subsection \<open>The offline sweep\<close>




lemma offline_loop_Cons_fst:
  "fst (offline_loop cfg now ((k, v) # xs) st)
     = (if is_active v \<and> duration_cast_minutes (now - last_update v) > sensor_timeout_minutes cfg
        then fst (generate_alert cfg now k SENSOR_OFFLINE (v\<lparr>is_active := False\<rparr>) st)
             @ fst (offline_loop cfg now xs
                      (snd (generate_alert cfg now k SENSOR_OFFLINE (v\<lparr>is_active := False\<rparr>) st)))
        else fst (offline_loop cfg now xs st))"
  by (simp add: Let_def split: prod.splits)

lemma offline_loop_Cons_state:
  "snd (snd (offline_loop cfg now ((k, v) # xs) st))
     = (if is_active v \<and> duration_cast_minutes (now - last_update v) > sensor_timeout_minutes cfg
        then snd (snd (offline_loop cfg now xs
                      (snd (generate_alert cfg now k SENSOR_OFFLINE (v\<lparr>is_active := False\<rparr>) st))))
        else snd (snd (offline_loop cfg now xs st)))"
  by (simp add: Let_def split: prod.splits)















lemma make_alert_fields [simp]:
  "alert_timestamp (make_alert now sid ty sensor) = now"
  "alert_sensor_id (make_alert now sid ty sensor) = sid"
  "alert_type (make_alert now sid ty sensor) = ty"
  by (simp_all add: make_alert_def)










subsection \<open>Invalid readings\<close>

text \<open>
  What \<^verbatim>\<open>update_statistics\<close> would do with an invalid packet of a known sensor: count it
  as an error and move \<open>last_update\<close>. \<^verbatim>\<open>process_packet_internal\<close> never calls it so.
\<close>

lemma update_statistics_invalid:
  "\<not> is_valid packet \<Longrightarrow> sensor_stats st (pkt_sensor_id packet) = Some s \<Longrightarrow> st_sensor_id s \<noteq> [] \<Longrightarrow>
   sensor_stats (update_statistics packet st) (pkt_sensor_id packet)
     = Some (s\<lparr>total_packets := total_packets s + 1, error_packets := error_packets s + 1,
               packet_loss_rate := real (error_packets s + 1) / real (total_packets s + 1),
               st_last_update := timestamp packet\<rparr>)"
  by (simp add: update_statistics_def Let_def)

text \<open>
  Claim C1, as amended. A reading whose validity flag is false leaves the history and the
  temperature and humidity values of every sensor as they were, and no alert is raised
  from it, whether it is handed to \<^verbatim>\<open>process_packet_internal\<close> directly or taken from the
  queue by a worker.
\<close>

theorem invalid_reading_ignored:
  "(\<not> is_valid packet \<longrightarrow>
      sensor_history (snd (process_packet_internal cfg now packet st)) = sensor_history st
    \<and> (\<forall>sid. map_option sensor_values (sensor_stats (snd (process_packet_internal cfg now packet st)) sid)
              = map_option sensor_values (sensor_stats st sid))
    \<and> \<not> (\<exists>e \<in> set (fst (process_packet_internal cfg now packet st)). is_alert_event e))
   \<and> (\<not> is_valid packet \<and> running st \<and> processing_queue st = packet # rest \<longrightarrow>
      sensor_history (snd (worker_step cfg now st)) = sensor_history st
    \<and> (\<forall>sid. map_option sensor_values (sensor_stats (snd (worker_step cfg now st)) sid)
              = map_option sensor_values (sensor_stats st sid))
    \<and> \<not> (\<exists>e \<in> set (fst (worker_step cfg now st)). is_alert_event e))"
  by (simp add: process_packet_internal_def worker_step_def)

theorem invalid_reading_ignored_witness:
  "\<not> is_valid invalid_packet
   \<and> sensor_history (snd (process_packet_internal default_gateway_config 100 invalid_packet
         (new_processor default_gateway_config))) = []
   \<and> fst (process_packet_internal default_gateway_config 100 invalid_packet
         (new_processor default_gateway_config)) = [Console_ignoring_invalid ''s1'']"
  using invalid_reading_ignored [where packet = invalid_packet and cfg = default_gateway_config
      and now = 100 and st = "new_processor default_gateway_config" and rest = "[]"]
  by (simp add: invalid_packet_def demo_packet_def new_processor_def process_packet_internal_def)

text \<open>
  The claim as stated fails: \<^verbatim>\<open>process_packet_internal\<close> returns before the statistics
  update, so the error counter of the sensor is not incremented.
\<close>

theorem invalid_reading_ignored_counterexample:
  "\<not> is_valid invalid_packet
   \<and> error_count (snd (process_packet_internal default_gateway_config 130000000000 invalid_packet
         seen_processor)) (pkt_sensor_id invalid_packet)
       \<noteq> error_count seen_processor (pkt_sensor_id invalid_packet) + 1"
  by (simp add: invalid_packet_def process_packet_internal_def)

subsection \<open>Aggregation\<close>

lemma aggregate_step_tuple:
  "aggregate_step p (a, b, c, mn, mx, n)
     = (if is_valid p
        then (a + temperature_celsius p, b + humidity_percent p, c + pressure_hpa p,
              min mn (temperature_celsius p), max mx (temperature_celsius p), n + 1)
        else (a, b, c, mn, mx, n))"
  by (simp add: aggregate_step_def)

lemma fold_aggregate_step:
  "fold aggregate_step ps (a, b, c, mn, mx, n)
     = (a + sum_list (map temperature_celsius (filter is_valid ps)),
        b + sum_list (map humidity_percent (filter is_valid ps)),
        c + sum_list (map pressure_hpa (filter is_valid ps)),
        fold min (map temperature_celsius (filter is_valid ps)) mn,
        fold max (map temperature_celsius (filter is_valid ps)) mx,
        n + length (filter is_valid ps))"
proof (induction ps arbitrary: a b c mn mx n)
  case Nil
  then show ?case by simp
next
  case (Cons p ps)
  show ?case
    by (cases "is_valid p") (simp_all add: aggregate_step_tuple Cons.IH min.commute max.commute algebra_simps)
qed

lemma fold_min_first: "fold min (x # xs) (x::real) = Min (set (x # xs))"
  by (simp add: Min.set_eq_fold [symmetric])

lemma fold_max_first: "fold max (x # xs) (x::real) = Max (set (x # xs))"
  by (simp add: Max.set_eq_fold [symmetric])

lemma format_aggregated_data_valid:
  assumes "samples \<noteq> []" and "is_valid (hd samples)"
  shows "format_aggregated_data cfg now samples = Aggregated_data (aggregated_window cfg now samples)"
proof -
  obtain p ps where s: "samples = p # ps" using assms(1) by (cases samples) auto
  have v: "is_valid p" using assms(2) s by simp
  have f: "filter is_valid (p # ps) = p # filter is_valid ps" using v by simp
  show ?thesis
    unfolding s format_aggregated_data_def list.case fold_aggregate_step f list.map
      fold_min_first fold_max_first
    by (simp add: aggregated_window_def v del: fold_simps)
qed

lemma format_aggregated_data_none_valid:
  "filter is_valid samples = [] \<Longrightarrow> format_aggregated_data cfg now samples = Empty_object"
proof (cases samples)
  case Nil
  then show ?thesis by (simp add: format_aggregated_data_def)
next
  case (Cons p ps)
  assume "filter is_valid samples = []"
  then show ?thesis
    unfolding Cons format_aggregated_data_def list.case fold_aggregate_step by simp
qed


lemma mqtt_messages_append [simp]:
  "mqtt_messages topic (es @ fs) = mqtt_messages topic es @ mqtt_messages topic fs"
  by (induction topic es rule: mqtt_messages.induct) simp_all

lemma websocket_aggregates_append [simp]:
  "websocket_aggregates sid (es @ fs) = websocket_aggregates sid es @ websocket_aggregates sid fs"
  by (induction sid es rule: websocket_aggregates.induct) simp_all

lemma aggregated_topic_inj: "aggregated_topic cfg k = aggregated_topic cfg sid \<longleftrightarrow> k = sid"
  by (simp add: aggregated_topic_def)

lemma recent_data_subset: "set (recent_data cfg now h) \<subseteq> set h"
  by (auto simp: recent_data_def)

lemma aggregate_sensor_ok:
  assumes "\<forall>p \<in> set h. is_valid p \<and> pkt_sensor_id p = k"
  shows "aggregate_sensor cfg now st (k, h)
     = (if recent_data cfg now h = [] then []
        else (if mqtt_callback_set st
              then [Mqtt_publish (aggregated_topic cfg k)
                      (Aggregated_data (aggregated_window cfg now (recent_data cfg now h)))]
              else [])
             @ (if websocket_callback_set st
                then [WebSocket_send (Aggregated_data (aggregated_window cfg now (recent_data cfg now h)))]
                else []))"
proof (cases "recent_data cfg now h = []")
  case True
  then show ?thesis by (simp add: aggregate_sensor_def)
next
  case False
  then have "hd (recent_data cfg now h) \<in> set h"
    using recent_data_subset [of cfg now h] by (meson hd_in_set subsetD)
  then have v: "is_valid (hd (recent_data cfg now h))" using assms by blast
  have ne: "h \<noteq> []" using False by (auto simp: recent_data_def)
  show ?thesis
    using False ne
    by (simp add: aggregate_sensor_def format_aggregated_data_valid [OF False v] aggregated_topic_def
        Let_def)
qed

lemma agg_sensor_id_window:
  assumes "samples \<noteq> []" and "\<forall>p \<in> set samples. pkt_sensor_id p = k"
  shows "agg_sensor_id (aggregated_window cfg now samples) = k"
  using assms by (cases samples) (simp_all add: aggregated_window_def Let_def)

lemma aggregate_sensor_other:
  assumes "\<forall>p \<in> set h. is_valid p \<and> pkt_sensor_id p = k" and "k \<noteq> sid"
  shows "mqtt_messages (aggregated_topic cfg sid) (aggregate_sensor cfg now st (k, h)) = []"
    and "websocket_aggregates sid (aggregate_sensor cfg now st (k, h)) = []"
proof -
  show "mqtt_messages (aggregated_topic cfg sid) (aggregate_sensor cfg now st (k, h)) = []"
    using assms(2) by (simp add: aggregate_sensor_ok [OF assms(1)] aggregated_topic_inj)
  have "\<forall>p \<in> set (recent_data cfg now h). pkt_sensor_id p = k"
    using assms(1) recent_data_subset [of cfg now h] by blast
  then have "recent_data cfg now h \<noteq> [] \<Longrightarrow>
      agg_sensor_id (aggregated_window cfg now (recent_data cfg now h)) = k"
    by (rule agg_sensor_id_window [rotated])
  then show "websocket_aggregates sid (aggregate_sensor cfg now st (k, h)) = []"
    using assms(2) by (simp add: aggregate_sensor_ok [OF assms(1)])
qed

lemma aggregate_sensor_same:
  assumes "\<forall>p \<in> set h. is_valid p \<and> pkt_sensor_id p = sid"
  shows "mqtt_messages (aggregated_topic cfg sid) (aggregate_sensor cfg now st (sid, h))
      = (if mqtt_callback_set st \<and> recent_data cfg now h \<noteq> []
         then [Aggregated_data (aggregated_window cfg now (recent_data cfg now h))] else [])"
    and "websocket_aggregates sid (aggregate_sensor cfg now st (sid, h))
      = (if websocket_callback_set st \<and> recent_data cfg now h \<noteq> []
         then [Aggregated_data (aggregated_window cfg now (recent_data cfg now h))] else [])"
proof -
  show "mqtt_messages (aggregated_topic cfg sid) (aggregate_sensor cfg now st (sid, h))
      = (if mqtt_callback_set st \<and> recent_data cfg now h \<noteq> []
         then [Aggregated_data (aggregated_window cfg now (recent_data cfg now h))] else [])"
    by (simp add: aggregate_sensor_ok [OF assms])
  have "\<forall>p \<in> set (recent_data cfg now h). pkt_sensor_id p = sid"
    using assms recent_data_subset [of cfg now h] by blast
  then have "recent_data cfg now h \<noteq> [] \<Longrightarrow>
      agg_sensor_id (aggregated_window cfg now (recent_data cfg now h)) = sid"
    by (rule agg_sensor_id_window [rotated])
  then show "websocket_aggregates sid (aggregate_sensor cfg now st (sid, h))
      = (if websocket_callback_set st \<and> recent_data cfg now h \<noteq> []
         then [Aggregated_data (aggregated_window cfg now (recent_data cfg now h))] else [])"
    by (simp add: aggregate_sensor_ok [OF assms])
qed

lemma aggregate_entries_absent:
  assumes "sid \<notin> fst ` set xs"
    and "\<forall>(k, h') \<in> set xs. \<forall>p \<in> set h'. is_valid p \<and> pkt_sensor_id p = k"
  shows "mqtt_messages (aggregated_topic cfg sid) (concat (map (aggregate_sensor cfg now st) xs)) = []
       \<and> websocket_aggregates sid (concat (map (aggregate_sensor cfg now st) xs)) = []"
  using assms
proof (induction xs)
  case Nil
  then show ?case by simp
next
  case (Cons y ys)
  obtain k g where y: "y = (k, g)" by (cases y)
  have "k \<noteq> sid" and "\<forall>p \<in> set g. is_valid p \<and> pkt_sensor_id p = k"
    using Cons.prems y by auto
  moreover have "sid \<notin> fst ` set ys"
    and "\<forall>(k, h') \<in> set ys. \<forall>p \<in> set h'. is_valid p \<and> pkt_sensor_id p = k"
    using Cons.prems by auto
  ultimately show ?case using Cons.IH y by (simp add: aggregate_sensor_other)
qed

lemma aggregate_entries:
  assumes "distinct (map fst xs)" and "map_of xs sid = Some h"
    and "\<forall>(k, h') \<in> set xs. \<forall>p \<in> set h'. is_valid p \<and> pkt_sensor_id p = k"
  shows "mqtt_messages (aggregated_topic cfg sid) (concat (map (aggregate_sensor cfg now st) xs))
      = (if mqtt_callback_set st \<and> recent_data cfg now h \<noteq> []
         then [Aggregated_data (aggregated_window cfg now (recent_data cfg now h))] else [])
    \<and> websocket_aggregates sid (concat (map (aggregate_sensor cfg now st) xs))
      = (if websocket_callback_set st \<and> recent_data cfg now h \<noteq> []
         then [Aggregated_data (aggregated_window cfg now (recent_data cfg now h))] else [])"
  using assms
proof (induction xs)
  case Nil
  then show ?case by simp
next
  case (Cons x xs)
  obtain k h' where x: "x = (k, h')" by (cases x)
  have ok: "\<forall>p \<in> set h'. is_valid p \<and> pkt_sensor_id p = k" using Cons.prems(3) x by auto
  have okr: "\<forall>(k, h') \<in> set xs. \<forall>p \<in> set h'. is_valid p \<and> pkt_sensor_id p = k"
    using Cons.prems(3) by auto
  have dist: "distinct (map fst xs)" and knotin: "k \<notin> fst ` set xs"
    using Cons.prems(1) x by auto
  show ?case
  proof (cases "k = sid")
    case True
    then have h: "h' = h" using Cons.prems(2) x by simp
    have "sid \<notin> fst ` set xs" using knotin True by simp
    from aggregate_entries_absent [OF this okr, of cfg now st]
    show ?thesis
      using ok True h by (simp add: x aggregate_sensor_same)
  next
    case False
    then have m: "map_of xs sid = Some h" using Cons.prems(2) x by simp
    show ?thesis
      using Cons.IH [OF dist m okr] ok False by (simp add: x aggregate_sensor_other)
  qed
qed

lemma history_ok_entries:
  "history_ok st \<Longrightarrow>
   \<forall>(k, h') \<in> set (sensor_history st). \<forall>p \<in> set h'. is_valid p \<and> pkt_sensor_id p = k"
  unfolding history_ok_def by (auto dest: map_of_is_SomeI)

lemma set_push_bounded: "set (push_bounded n x xs) \<subseteq> insert x (set xs)"
proof -
  have "set (tl (xs @ [x])) \<subseteq> set (xs @ [x])" by (rule list.set_sel(2) [THEN subsetI]) auto
  then show ?thesis by (auto simp: push_bounded_def Let_def)
qed

lemma history_ok_process_packet_internal:
  assumes "history_ok st"
  shows "history_ok (snd (process_packet_internal cfg now packet st))"
proof (cases "is_valid packet")
  case False
  then show ?thesis using assms by (simp add: history_ok_def history_process_packet_internal)
next
  case True
  let ?k = "pkt_sensor_id packet"
  let ?h = "push_bounded (size_t_of_int (max_sensor_history cfg)) packet (history_of st ?k)"
  have sh: "sensor_history (snd (process_packet_internal cfg now packet st))
      = AList.update ?k ?h (sensor_history st)"
    using True by (simp add: history_process_packet_internal)
  have old: "\<forall>p \<in> set (history_of st ?k). is_valid p \<and> pkt_sensor_id p = ?k"
    using assms by (auto simp: history_ok_def history_of_def split: option.splits)
  have new: "\<forall>p \<in> set ?h. is_valid p \<and> pkt_sensor_id p = ?k"
    using old True set_push_bounded [of "size_t_of_int (max_sensor_history cfg)" packet "history_of st ?k"]
    by auto
  show ?thesis
    unfolding history_ok_def sh
    using assms new by (auto simp: history_ok_def distinct_update update_conv' split: if_splits)
qed

lemma history_ok_step: "history_ok st \<Longrightarrow> history_ok (dp_step cfg op st)"
proof (cases op)
  case (Work now)
  assume ok: "history_ok st"
  show ?thesis
  proof (cases "running st \<and> processing_queue st \<noteq> []")
    case False
    then show ?thesis using ok by (auto simp: Work worker_step_def split: list.splits)
  next
    case True
    then obtain p rest where q: "processing_queue st = p # rest" by (cases "processing_queue st") auto
    have "history_ok (st\<lparr>processing_queue := rest\<rparr>)" using ok by (simp add: history_ok_def)
    then have "history_ok (snd (process_packet_internal cfg now p (st\<lparr>processing_queue := rest\<rparr>)))"
      by (rule history_ok_process_packet_internal)
    then show ?thesis using True q by (simp add: Work worker_step_def)
  qed
qed (auto simp: history_ok_def start_def stop_def process_packet_def set_mqtt_callback_def
        set_websocket_callback_def set_alert_callback_def enable_edge_analytics_call_def)

lemma history_ok_run: "history_ok st \<Longrightarrow> history_ok (run_ops cfg ops st)"
  unfolding run_ops_def by (induction ops arbitrary: st) (simp_all add: history_ok_step)

lemma history_ok_new: "history_ok (new_processor cfg)"
  by (simp add: history_ok_def new_processor_def)


text \<open>
  Claim C9. In a state of the processor (the history map holds, under distinct keys, valid
  packets of the key's sensor, as it does in every state the operations reach from
  construction), an aggregation pass filters the history of each sensor to the packets
  whose timestamp lies within the trailing window; for a sensor with such packets (all of
  them valid) it hands to each registered callback exactly one aggregated record, which
  holds the sample count, the valid count, the average, minimum and maximum temperature,
  the average humidity and the average pressure of the valid samples; for a sensor whose
  window is empty, or that the store does not hold, it emits nothing.
\<close>

theorem aggregation_pass:
  assumes "history_ok st" and "map_of (sensor_history st) sid = Some history"
  shows "recent_data cfg now history
           = filter (\<lambda>p. now - aggregation_window_seconds cfg * ticks_per_second \<le> timestamp p) history
       \<and> filter is_valid (recent_data cfg now history) = recent_data cfg now history
       \<and> mqtt_messages (aggregated_topic cfg sid) (aggregate_and_forward cfg now st)
           = (if mqtt_callback_set st \<and> recent_data cfg now history \<noteq> []
              then [Aggregated_data (aggregated_window cfg now (recent_data cfg now history))] else [])
       \<and> websocket_aggregates sid (aggregate_and_forward cfg now st)
           = (if websocket_callback_set st \<and> recent_data cfg now history \<noteq> []
              then [Aggregated_data (aggregated_window cfg now (recent_data cfg now history))] else [])
       \<and> (map_of (sensor_history st) other = None \<longrightarrow>
            mqtt_messages (aggregated_topic cfg other) (aggregate_and_forward cfg now st) = []
          \<and> websocket_aggregates other (aggregate_and_forward cfg now st) = [])
       \<and> history_ok (run_ops cfg ops (new_processor cfg))"
proof (intro conjI impI)
  show "recent_data cfg now history
           = filter (\<lambda>p. now - aggregation_window_seconds cfg * ticks_per_second \<le> timestamp p) history"
    by (simp add: recent_data_def seconds_def)
  have "\<forall>p \<in> set history. is_valid p"
    using assms by (auto simp: history_ok_def)
  then have "\<forall>p \<in> set (recent_data cfg now history). is_valid p"
    using recent_data_subset [of cfg now history] by blast
  then show "filter is_valid (recent_data cfg now history) = recent_data cfg now history"
    by (simp add: filter_id_conv)
  have d: "distinct (map fst (sensor_history st))" using assms(1) by (simp add: history_ok_def)
  note e = aggregate_entries [OF d assms(2) history_ok_entries [OF assms(1)], of cfg now st]
  show "mqtt_messages (aggregated_topic cfg sid) (aggregate_and_forward cfg now st)
           = (if mqtt_callback_set st \<and> recent_data cfg now history \<noteq> []
              then [Aggregated_data (aggregated_window cfg now (recent_data cfg now history))] else [])"
    using e by (simp add: aggregate_and_forward_def)
  show "websocket_aggregates sid (aggregate_and_forward cfg now st)
           = (if websocket_callback_set st \<and> recent_data cfg now history \<noteq> []
              then [Aggregated_data (aggregated_window cfg now (recent_data cfg now history))] else [])"
    using e by (simp add: aggregate_and_forward_def)
  show "history_ok (run_ops cfg ops (new_processor cfg))"
    using history_ok_new by (rule history_ok_run)
next
  assume "map_of (sensor_history st) other = None"
  then have "other \<notin> fst ` set (sensor_history st)" by (simp add: map_of_eq_None_iff)
  note a = aggregate_entries_absent [OF this history_ok_entries [OF assms(1)], of cfg now st]
  show "mqtt_messages (aggregated_topic cfg other) (aggregate_and_forward cfg now st) = []"
    using a by (simp add: aggregate_and_forward_def)
  show "websocket_aggregates other (aggregate_and_forward cfg now st) = []"
    using a by (simp add: aggregate_and_forward_def)
qed

lemma ten_samples_recent:
  "recent_data default_gateway_config 60000000000 ten_samples = ten_samples"
  by (simp add: recent_data_def ten_samples_def sample_packet_def seconds_def
      ticks_per_second_def default_gateway_config_def)

lemma ten_samples_window:
  "sample_count (aggregated_window default_gateway_config 60000000000 ten_samples) = 10"
  "valid_count (aggregated_window default_gateway_config 60000000000 ten_samples) = 10"
  "temperature_avg (aggregated_window default_gateway_config 60000000000 ten_samples) = 22"
  "temperature_min (aggregated_window default_gateway_config 60000000000 ten_samples) = 20"
  "temperature_max (aggregated_window default_gateway_config 60000000000 ten_samples) = 24"
  by (simp_all add: aggregated_window_def ten_samples_def sample_packet_def demo_packet_def Let_def)

theorem aggregation_pass_witness:
  "history_ok ten_sample_processor
   \<and> map_of (sensor_history ten_sample_processor) ''s1'' = Some ten_samples
   \<and> map_of (sensor_history ten_sample_processor) ''s2'' = None
   \<and> mqtt_messages (aggregated_topic default_gateway_config ''s1'')
        (aggregate_and_forward default_gateway_config 60000000000 ten_sample_processor)
       = [Aggregated_data (aggregated_window default_gateway_config 60000000000 ten_samples)]
   \<and> mqtt_messages (aggregated_topic default_gateway_config ''s2'')
        (aggregate_and_forward default_gateway_config 60000000000 ten_sample_processor) = []
   \<and> sample_count (aggregated_window default_gateway_config 60000000000 ten_samples) = 10
   \<and> temperature_avg (aggregated_window default_gateway_config 60000000000 ten_samples) = 22"
proof -
  have ok: "history_ok ten_sample_processor"
    by (simp add: history_ok_def ten_sample_processor_def ten_samples_def sample_packet_def
        demo_packet_def)
  have m: "map_of (sensor_history ten_sample_processor) ''s1'' = Some ten_samples"
    by (simp add: ten_sample_processor_def)
  have n: "map_of (sensor_history ten_sample_processor) ''s2'' = None"
    by (simp add: ten_sample_processor_def)
  have cb: "mqtt_callback_set ten_sample_processor" by (simp add: ten_sample_processor_def)
  have ne: "ten_samples \<noteq> []" by (simp add: ten_samples_def)
  show ?thesis
    using aggregation_pass [OF ok m, where cfg = default_gateway_config and now = 60000000000
        and other = "''s2''" and ops = "[]"] n cb ne ok m
    by (simp add: ten_samples_recent ten_samples_window)
qed

subsection \<open>Single-precision rounding\<close>



text \<open>
  The unit in the last place: \<open>ulp_exponent x\<close> lies between \<open>-149\<close> and \<open>104\<close> and is the
  largest such \<open>q\<close> with \<open>2^(q+23) \<le> |x|\<close>, so \<open>|x| < 2^(q+24)\<close> below the last binade.
\<close>

lemma pow2_less_iff: "(2::real) powi m < 2 powi n \<longleftrightarrow> m < n"
proof
  assume l: "(2::real) powi m < 2 powi n"
  show "m < n"
  proof (rule ccontr)
    assume "\<not> m < n"
    then have "(2::real) powi n \<le> 2 powi m" by (intro power_int_increasing) simp_all
    then show False using l by simp
  qed
next
  assume "m < n"
  then show "(2::real) powi m < 2 powi n" by (intro power_int_strict_increasing) simp_all
qed

lemma pow2_le_iff: "(2::real) powi m \<le> 2 powi n \<longleftrightarrow> m \<le> n"
  using pow2_less_iff [of n m] by (simp add: not_less [symmetric])


lemma round_half_even_of_int [simp]: "round_half_even (of_int k) = k"
  by (simp add: round_half_even_def)




lemma round_half_even_error: "\<bar>of_int (round_half_even t) - t\<bar> \<le> 1 / 2"
proof -
  have "of_int \<lfloor>t\<rfloor> \<le> t" "t < of_int \<lfloor>t\<rfloor> + 1" by linarith+
  then show ?thesis by (auto simp: round_half_even_def Let_def abs_le_iff)
qed

lemma ulp_bisect_range: "lo \<le> ulp_bisect k lo a \<and> ulp_bisect k lo a < lo + 2 ^ k"
proof (induction k arbitrary: lo)
  case 0
  then show ?case by simp
next
  case (Suc k)
  show ?case using Suc.IH [of lo] Suc.IH [of "lo + 2 ^ k"] by auto
qed

lemma ulp_bisect_lower:
  "ulp_bisect k lo a = lo \<or> 2 powi (ulp_bisect k lo a + 23) \<le> a"
proof (induction k arbitrary: lo)
  case 0
  then show ?case by simp
next
  case (Suc k)
  show ?case using Suc.IH [of lo] Suc.IH [of "lo + 2 ^ k"] by auto
qed

lemma ulp_bisect_max:
  "lo \<le> q \<Longrightarrow> q < lo + 2 ^ k \<Longrightarrow> 2 powi (q + 23) \<le> a \<Longrightarrow> q \<le> ulp_bisect k lo a"
proof (induction k arbitrary: lo)
  case 0
  then show ?case by simp
next
  case (Suc k)
  show ?case
  proof (cases "2 powi (lo + 2 ^ k + 23) \<le> a")
    case True
    show ?thesis
    proof (cases "q < lo + 2 ^ k")
      case q: True
      have "lo + 2 ^ k \<le> ulp_bisect k (lo + 2 ^ k) a" using ulp_bisect_range by blast
      then show ?thesis using True q by simp
    next
      case q: False
      have "q \<le> ulp_bisect k (lo + 2 ^ k) a"
        using q Suc.prems by (intro Suc.IH) simp_all
      then show ?thesis using True by simp
    qed
  next
    case False
    then have "(2::real) powi (q + 23) < 2 powi (lo + 2 ^ k + 23)" using Suc.prems(3) by simp
    then have "q + 23 < lo + 2 ^ k + 23" by (simp only: pow2_less_iff)
    then have "q \<le> ulp_bisect k lo a" using Suc.prems by (intro Suc.IH) simp_all
    then show ?thesis using False by simp
  qed
qed

lemma ulp_exponent_range: "- 149 \<le> ulp_exponent x \<and> ulp_exponent x \<le> 104"
  using ulp_bisect_range [of "- 149" 8 "\<bar>x\<bar>"] by (simp add: ulp_exponent_def)

lemma ulp_exponent_lower:
  "ulp_exponent x = - 149 \<or> 2 powi (ulp_exponent x + 23) \<le> \<bar>x\<bar>"
proof -
  let ?b = "ulp_bisect 8 (- 149) \<bar>x\<bar>"
  consider "?b = - 149" | "2 powi (?b + 23) \<le> \<bar>x\<bar>" using ulp_bisect_lower by blast
  then show ?thesis
  proof cases
    case 1
    then show ?thesis by (simp add: ulp_exponent_def)
  next
    case 2
    have "(2::real) powi (min 104 ?b + 23) \<le> 2 powi (?b + 23)"
      unfolding pow2_le_iff by simp
    then show ?thesis using 2 by (simp add: ulp_exponent_def)
  qed
qed

lemma ulp_exponent_max:
  assumes "- 149 \<le> q" and "q \<le> 104" and "2 powi (q + 23) \<le> \<bar>x\<bar>"
  shows "q \<le> ulp_exponent x"
proof -
  have "q \<le> ulp_bisect 8 (- 149) \<bar>x\<bar>" using assms by (intro ulp_bisect_max) simp_all
  then show ?thesis using assms(2) by (simp add: ulp_exponent_def)
qed

lemma ulp_exponent_upper:
  "ulp_exponent x = 104 \<or> \<bar>x\<bar> < 2 powi (ulp_exponent x + 24)"
proof (rule ccontr)
  assume a: "\<not> (ulp_exponent x = 104 \<or> \<bar>x\<bar> < 2 powi (ulp_exponent x + 24))"
  then have "2 powi (ulp_exponent x + 24) \<le> \<bar>x\<bar>" by simp
  moreover have "ulp_exponent x + 24 = (ulp_exponent x + 1) + 23" by simp
  ultimately have "2 powi ((ulp_exponent x + 1) + 23) \<le> \<bar>x\<bar>" by (simp only:)
  moreover have "- 149 \<le> ulp_exponent x + 1" "ulp_exponent x + 1 \<le> 104"
    using a ulp_exponent_range [of x] by auto
  ultimately have "ulp_exponent x + 1 \<le> ulp_exponent x" by (intro ulp_exponent_max)
  then show False by simp
qed

text \<open>A real of the form m * 2^e with |m| < 2^24 and e from -149 to 104 rounds to itself.\<close>

lemma is_float32I:
  assumes m: "\<bar>m\<bar> < 2 ^ 24" and e: "- 149 \<le> e" "e \<le> 104"
  shows "is_float32 (of_int m * 2 powi e)"
proof -
  define x :: real where "x = of_int m * 2 powi e"
  define q where "q = ulp_exponent x"
  define P :: real where "P = 2 powi q"
  have xlt: "\<bar>x\<bar> < 2 powi (e + 24)"
  proof -
    have "\<bar>x\<bar> = \<bar>of_int m\<bar> * 2 powi e" by (simp add: x_def abs_mult)
    also have "\<dots> < 2 ^ 24 * 2 powi e"
    proof (rule mult_strict_right_mono)
      have "real_of_int \<bar>m\<bar> < real_of_int (2 ^ 24)" using m by (simp only: of_int_less_iff)
      then show "\<bar>real_of_int m\<bar> < 2 ^ 24" by simp
    qed simp
    also have "\<dots> = 2 powi (e + 24)" by (simp add: power_int_add)
    finally show ?thesis .
  qed
  have qe: "q \<le> e"
  proof -
    consider "q = - 149" | "2 powi (q + 23) \<le> \<bar>x\<bar>"
      using ulp_exponent_lower [of x] unfolding q_def by blast
    then show ?thesis
    proof cases
      case 1
      then show ?thesis using e by simp
    next
      case 2
      then have "(2::real) powi (q + 23) < 2 powi (e + 24)" using xlt by simp
      then have "q + 23 < e + 24" by (simp only: pow2_less_iff)
      then show ?thesis by simp
    qed
  qed
  have P: "0 < P" by (simp add: P_def)
  have split: "(2::real) powi e = 2 ^ nat (e - q) * P"
  proof -
    have "(2::real) powi e = 2 powi ((e - q) + q)" by simp
    also have "\<dots> = 2 powi (e - q) * 2 powi q" by (rule power_int_add) simp
    also have "2 powi (e - q) = (2::real) ^ nat (e - q)" using qe by (simp add: power_int_def)
    finally show ?thesis by (simp add: P_def)
  qed
  have "x / P = of_int (m * 2 ^ nat (e - q))"
    using P by (simp add: x_def split)
  then have "round_half_even (x / P) = m * 2 ^ nat (e - q)"
    by (simp only: round_half_even_of_int)
  then have "of_int (round_half_even (x / P)) * P = of_int m * (2 ^ nat (e - q) * P)" by simp
  then have r: "of_int (round_half_even (x / P)) * P = x"
    by (simp only: split [symmetric] x_def)
  have "\<bar>x\<bar> < 2 ^ 128"
  proof -
    have "(2::real) powi (e + 24) \<le> 2 powi 128" using e unfolding pow2_le_iff by simp
    then show ?thesis using xlt by simp
  qed
  then have "round_float32 x = Finite x"
    unfolding round_float32_def Let_def q_def [symmetric] P_def [symmetric] r
    by (auto simp: abs_less_iff)
  then show ?thesis by (simp add: is_float32_def x_def)
qed




text \<open>The half-ulp error bound of a finite result.\<close>

lemma round_float32_error:
  assumes "round_float32 x = Finite r"
  shows "\<bar>r - x\<bar> \<le> 2 powi ulp_exponent x / 2"
proof -
  define P :: real where "P = 2 powi ulp_exponent x"
  have P: "0 < P" by (simp add: P_def)
  have r: "r = of_int (round_half_even (x / P)) * P"
    using assms unfolding round_float32_def Let_def P_def [symmetric] by (auto split: if_splits)
  have "\<bar>r - x\<bar> = \<bar>(of_int (round_half_even (x / P)) - x / P) * P\<bar>"
    using P by (simp add: r algebra_simps)
  also have "\<dots> = \<bar>of_int (round_half_even (x / P)) - x / P\<bar> * P"
    using P by (simp add: abs_mult)
  also have "\<dots> \<le> (1 / 2) * P"
    using P round_half_even_error [of "x / P"] by (intro mult_right_mono) simp_all
  finally show ?thesis by (simp add: P_def)
qed

text \<open>An operation whose exact result is a binary32 value yields it.\<close>

lemma float32_add_exact:
  "is_float32 (a + b) \<Longrightarrow> float32_add (Finite a) (Finite b) = Finite (a + b)"
  by (simp add: is_float32_def)




subsection \<open>Trend analysis\<close>













































subsection \<open>The cooldown between alerts\<close>

lemma generate_alert_sensors_update:
  "generate_alert cfg now sid ty s (st\<lparr>sensors := x\<rparr>)
     = (fst (generate_alert cfg now sid ty s st), (snd (generate_alert cfg now sid ty s st))\<lparr>sensors := x\<rparr>)"
  by (simp add: generate_alert_def should_throttle_alert_def Let_def split: option.splits bool.splits)

lemma admit_all_sensors_update:
  "admit_all cfg rs (st\<lparr>sensors := x\<rparr>)
     = (fst (admit_all cfg rs st), (snd (admit_all cfg rs st))\<lparr>sensors := x\<rparr>)"
proof (induction rs arbitrary: st)
  case Nil
  then show ?case by simp
next
  case (Cons r rs)
  obtain now sid ty s where r: "r = (now, sid, ty, s)" by (cases r) auto
  show ?case
    by (simp add: r generate_alert_sensors_update Cons.IH split: prod.splits)
qed

lemma admit_all_Cons:
  "admit_all cfg ((now, sid, ty, s) # rs) st
     = (fst (generate_alert cfg now sid ty s st)
          @ fst (admit_all cfg rs (snd (generate_alert cfg now sid ty s st))),
        snd (admit_all cfg rs (snd (generate_alert cfg now sid ty s st))))"
  by (simp split: prod.splits)

lemma admit_all_append:
  "admit_all cfg (rs @ rs') st
     = (fst (admit_all cfg rs st) @ fst (admit_all cfg rs' (snd (admit_all cfg rs st))),
        snd (admit_all cfg rs' (snd (admit_all cfg rs st))))"
proof (induction rs arbitrary: st)
  case Nil
  then show ?case by simp
next
  case (Cons r rs)
  obtain now sid ty s where r: "r = (now, sid, ty, s)" by (cases r) auto
  show ?case
    unfolding r append_Cons admit_all_Cons Cons.IH by simp
qed

lemma generate_alerts_admit_all:
  "generate_alerts cfg now sid s tys st = admit_all cfg (map (\<lambda>ty. (now, sid, ty, s)) tys) st"
  by (induction tys arbitrary: st) (simp_all split: prod.splits)

lemma offline_loop_admit_all:
  "\<exists>rs. (\<forall>r \<in> set rs. fst r = now)
      \<and> fst (offline_loop cfg now xs st) = fst (admit_all cfg rs st)
      \<and> snd (snd (offline_loop cfg now xs st)) = snd (admit_all cfg rs st)"
proof (induction xs arbitrary: st)
  case Nil
  show ?case by (rule exI [of _ "[]"]) simp
next
  case (Cons x xs)
  obtain k v where x: "x = (k, v)" by (cases x)
  show ?case
  proof (cases "is_active v \<and> duration_cast_minutes (now - last_update v) > sensor_timeout_minutes cfg")
    case True
    let ?g = "generate_alert cfg now k SENSOR_OFFLINE (v\<lparr>is_active := False\<rparr>) st"
    obtain rs where rs: "\<forall>r \<in> set rs. fst r = now"
      "fst (offline_loop cfg now xs (snd ?g)) = fst (admit_all cfg rs (snd ?g))"
      "snd (snd (offline_loop cfg now xs (snd ?g))) = snd (admit_all cfg rs (snd ?g))"
      using Cons.IH [of "snd ?g"] by blast
    show ?thesis
      by (rule exI [of _ "(now, k, SENSOR_OFFLINE, v\<lparr>is_active := False\<rparr>) # rs"])
         (use True rs in \<open>simp add: x offline_loop_Cons_fst offline_loop_Cons_state admit_all_Cons
            del: offline_loop.simps admit_all.simps\<close>)
  next
    case False
    obtain rs where rs: "\<forall>r \<in> set rs. fst r = now"
      "fst (offline_loop cfg now xs st) = fst (admit_all cfg rs st)"
      "snd (snd (offline_loop cfg now xs st)) = snd (admit_all cfg rs st)"
      using Cons.IH [of st] by blast
    show ?thesis
      by (rule exI [of _ rs])
         (use False rs in \<open>auto simp add: x offline_loop_Cons_fst offline_loop_Cons_state
            simp del: offline_loop.simps\<close>)
  qed
qed

lemma tracker_step_admit_all:
  "\<exists>rs x. (\<forall>r \<in> set rs. fst r = op_time op)
      \<and> fst (tracker_step cfg op st) = fst (admit_all cfg rs st)
      \<and> snd (tracker_step cfg op st) = (snd (admit_all cfg rs st))\<lparr>sensors := x\<rparr>"
proof (cases op)
  case (Reading now sid temp hum loc)
  let ?sensor = "apply_reading cfg now sid temp hum loc
            (case map_of (sensors st) sid of None \<Rightarrow> new_SensorData | Some s \<Rightarrow> s)"
  let ?x = "AList.update sid ?sensor (sensors st)"
  let ?rs = "map (\<lambda>ty. (now, sid, ty, ?sensor)) (threshold_candidates cfg now ?sensor)"
  have p: "process_sensor_data cfg now sid temp hum loc st
      = (fst (admit_all cfg ?rs (st\<lparr>sensors := ?x\<rparr>)), True, snd (admit_all cfg ?rs (st\<lparr>sensors := ?x\<rparr>)))"
    by (simp add: process_sensor_data_def check_thresholds_def generate_alerts_admit_all Let_def
        split: prod.splits)
  show ?thesis
    by (rule exI [of _ ?rs], rule exI [of _ ?x])
       (simp add: Reading p admit_all_sensors_update)
next
  case (Sweep now)
  obtain rs where rs: "\<forall>r \<in> set rs. fst r = now"
    "fst (offline_loop cfg now (sensors st) st) = fst (admit_all cfg rs st)"
    "snd (snd (offline_loop cfg now (sensors st) st)) = snd (admit_all cfg rs st)"
    using offline_loop_admit_all [of now cfg "sensors st" st] by blast
  have c: "check_offline_sensors cfg now st
      = (fst (offline_loop cfg now (sensors st) st),
         (snd (snd (offline_loop cfg now (sensors st) st)))
            \<lparr>sensors := fst (snd (offline_loop cfg now (sensors st) st))\<rparr>)"
    by (cases "offline_loop cfg now (sensors st) st") (simp add: check_offline_sensors_def)
  show ?thesis
    by (rule exI [of _ rs], rule exI [of _ "fst (snd (offline_loop cfg now (sensors st) st))"])
       (simp add: Sweep c rs)
qed

lemma sorted_constant: "(\<forall>r \<in> set rs. fst r = (c::int)) \<Longrightarrow> sorted (map fst rs)"
  by (induction rs) auto

lemma run_tracker_admit_all:
  assumes "sorted (map op_time ops)"
  shows "\<exists>rs x. sorted (map fst rs) \<and> fst ` set rs \<subseteq> op_time ` set ops
      \<and> fst (run_tracker cfg ops st) = fst (admit_all cfg rs st)
      \<and> snd (run_tracker cfg ops st) = (snd (admit_all cfg rs st))\<lparr>sensors := x\<rparr>"
  using assms
proof (induction ops arbitrary: st)
  case Nil
  show ?case by (rule exI [of _ "[]"], rule exI [of _ "sensors st"]) simp
next
  case (Cons op ops)
  obtain rs1 x1 where s1: "\<forall>r \<in> set rs1. fst r = op_time op"
    "fst (tracker_step cfg op st) = fst (admit_all cfg rs1 st)"
    "snd (tracker_step cfg op st) = (snd (admit_all cfg rs1 st))\<lparr>sensors := x1\<rparr>"
    using tracker_step_admit_all [of op cfg st] by blast
  have sorted': "sorted (map op_time ops)" and later: "\<forall>o' \<in> set ops. op_time op \<le> op_time o'"
    using Cons.prems by auto
  obtain rs2 x2 where s2: "sorted (map fst rs2)" "fst ` set rs2 \<subseteq> op_time ` set ops"
    "fst (run_tracker cfg ops (snd (tracker_step cfg op st)))
       = fst (admit_all cfg rs2 (snd (tracker_step cfg op st)))"
    "snd (run_tracker cfg ops (snd (tracker_step cfg op st)))
       = (snd (admit_all cfg rs2 (snd (tracker_step cfg op st))))\<lparr>sensors := x2\<rparr>"
    using Cons.IH [OF sorted', of "snd (tracker_step cfg op st)"] by blast
  have "\<forall>a \<in> set (map fst rs1). \<forall>b \<in> set (map fst rs2). a \<le> b"
    using s1(1) s2(2) later by auto
  then have srt: "sorted (map fst (rs1 @ rs2))"
    using sorted_constant [OF s1(1)] s2(1) by (simp add: sorted_append)
  have sub: "fst ` set (rs1 @ rs2) \<subseteq> op_time ` set (op # ops)"
    using s1(1) s2(2) by auto
  have "fst (run_tracker cfg (op # ops) st)
      = fst (tracker_step cfg op st) @ fst (run_tracker cfg ops (snd (tracker_step cfg op st)))"
    by simp
  also have "\<dots> = fst (admit_all cfg rs1 st) @ fst (admit_all cfg rs2 (snd (tracker_step cfg op st)))"
    by (simp only: s1(2) s2(3))
  also have "\<dots> = fst (admit_all cfg rs1 st) @ fst (admit_all cfg rs2 (snd (admit_all cfg rs1 st)))"
    by (simp add: s1(3) admit_all_sensors_update)
  also have "\<dots> = fst (admit_all cfg (rs1 @ rs2) st)"
    by (simp add: admit_all_append)
  finally have out: "fst (run_tracker cfg (op # ops) st) = fst (admit_all cfg (rs1 @ rs2) st)" .
  have "snd (run_tracker cfg (op # ops) st)
      = snd (run_tracker cfg ops (snd (tracker_step cfg op st)))"
    by simp
  also have "\<dots> = (snd (admit_all cfg rs2 (snd (tracker_step cfg op st))))\<lparr>sensors := x2\<rparr>"
    by (simp only: s2(4))
  also have "\<dots> = (snd (admit_all cfg rs2 (snd (admit_all cfg rs1 st))))\<lparr>sensors := x2\<rparr>"
    by (simp add: s1(3) admit_all_sensors_update)
  also have "\<dots> = (snd (admit_all cfg (rs1 @ rs2) st))\<lparr>sensors := x2\<rparr>"
    by (simp add: admit_all_append)
  finally have stt: "snd (run_tracker cfg (op # ops) st)
      = (snd (admit_all cfg (rs1 @ rs2) st))\<lparr>sensors := x2\<rparr>" .
  show ?case
    using srt sub out stt by blast
qed

lemma run_tracker_spaced:
  assumes "sorted (map op_time ops)"
  shows "spaced (alert_throttle_minutes cfg * ticks_per_minute) (fst (run_tracker cfg ops new_tracker))"
proof -
  obtain rs where rs: "sorted (map fst rs)"
    "fst (run_tracker cfg ops new_tracker) = fst (admit_all cfg rs new_tracker)"
    using run_tracker_admit_all [OF assms, of cfg new_tracker] by blast
  have "\<forall>sid ty l. throttle_lookup new_tracker sid ty = Some l \<longrightarrow> (\<forall>r \<in> set rs. l \<le> fst r)"
    by (simp add: throttle_lookup_def new_tracker_def)
  then show ?thesis
    unfolding rs(2) by (rule admit_all_spaced [OF rs(1)])
qed

text \<open>
  Claim C2. \<^verbatim>\<open>generate_alert\<close> is the only place where an alert is emitted. With the
  recorded last-fired time not after the clock reading (the clock is steady), a candidate of
  a sensor and kind fires exactly when no last-fired time is recorded for them or at least
  \<open>alert_throttle_minutes\<close> have passed since it; firing emits one alert, records the
  reading as the new last-fired time of that sensor and kind and leaves every other entry;
  a suppressed candidate emits nothing and leaves the tracker as it was. Hence, along any
  sequence of candidates raised at non-decreasing readings, and along any sequence of
  readings and sweeps that a new tracker performs at non-decreasing readings, two emitted
  alerts of one sensor and kind lie at least the cooldown apart. With a cooldown of 5
  minutes, a candidate raised twice within 5 minutes yields one alert, and raised again 5
  minutes or more after the first it yields the second.
\<close>

theorem alert_throttle_cooldown:
  assumes mono: "\<forall>l. throttle_lookup st sid ty = Some l \<longrightarrow> l \<le> now"
    and sorted: "sorted (map fst rs)"
    and start: "\<forall>s t l. throttle_lookup st s t = Some l \<longrightarrow> (\<forall>r \<in> set rs. l \<le> fst r)"
  shows "(case generate_alert cfg now sid ty sensor st of
            (out, st') \<Rightarrow>
              if throttle_lookup st sid ty = None
                 \<or> (\<exists>l. throttle_lookup st sid ty = Some l
                        \<and> alert_throttle_minutes cfg * ticks_per_minute \<le> now - l)
              then out = [make_alert now sid ty sensor]
                 \<and> throttle_lookup st' sid ty = Some now
                 \<and> (\<forall>s t. (s, t) \<noteq> (sid, ty) \<longrightarrow> throttle_lookup st' s t = throttle_lookup st s t)
                 \<and> recent_alerts st' =
                     push_bounded (max_alerts_history cfg) (make_alert now sid ty sensor) (recent_alerts st)
                 \<and> sensors st' = sensors st
              else out = [] \<and> st' = st)
       \<and> (\<forall>i j. i < j \<and> j < length (fst (admit_all cfg rs st))
              \<and> same_key (fst (admit_all cfg rs st) ! i) (fst (admit_all cfg rs st) ! j)
            \<longrightarrow> alert_throttle_minutes cfg * ticks_per_minute
                  \<le> alert_timestamp (fst (admit_all cfg rs st) ! j)
                     - alert_timestamp (fst (admit_all cfg rs st) ! i))
       \<and> (alert_throttle_minutes cfg = 5 \<and> throttle_lookup st sid ty = None
            \<and> ta \<le> tb \<and> tb - ta < 5 * ticks_per_minute \<and> tb \<le> tc \<and> 5 * ticks_per_minute \<le> tc - ta
          \<longrightarrow> fst (admit_all cfg [(ta, sid, ty, sensor), (tb, sid, ty, sensor)] st)
                = [make_alert ta sid ty sensor]
              \<and> fst (admit_all cfg [(ta, sid, ty, sensor), (tb, sid, ty, sensor), (tc, sid, ty, sensor)] st)
                = [make_alert ta sid ty sensor, make_alert tc sid ty sensor])
       \<and> (sorted (map op_time ops) \<longrightarrow>
            (\<forall>i j. i < j \<and> j < length (fst (run_tracker cfg ops new_tracker))
                \<and> same_key (fst (run_tracker cfg ops new_tracker) ! i)
                             (fst (run_tracker cfg ops new_tracker) ! j)
              \<longrightarrow> alert_throttle_minutes cfg * ticks_per_minute
                    \<le> alert_timestamp (fst (run_tracker cfg ops new_tracker) ! j)
                       - alert_timestamp (fst (run_tracker cfg ops new_tracker) ! i)))"
proof (intro conjI)
  show "case generate_alert cfg now sid ty sensor st of
            (out, st') \<Rightarrow>
              if throttle_lookup st sid ty = None
                 \<or> (\<exists>l. throttle_lookup st sid ty = Some l
                        \<and> alert_throttle_minutes cfg * ticks_per_minute \<le> now - l)
              then out = [make_alert now sid ty sensor]
                 \<and> throttle_lookup st' sid ty = Some now
                 \<and> (\<forall>s t. (s, t) \<noteq> (sid, ty) \<longrightarrow> throttle_lookup st' s t = throttle_lookup st s t)
                 \<and> recent_alerts st' =
                     push_bounded (max_alerts_history cfg) (make_alert now sid ty sensor) (recent_alerts st)
                 \<and> sensors st' = sensors st
              else out = [] \<and> st' = st"
  proof (cases "throttle_lookup st sid ty")
    case None
    then show ?thesis
      by (simp add: generate_alert_first throttle_lookup_fired generate_alert_state)
  next
    case (Some l)
    then have "l \<le> now" using mono by blast
    then have "alert_throttle_minutes cfg \<le> duration_cast_minutes (now - l)
      \<longleftrightarrow> alert_throttle_minutes cfg * ticks_per_minute \<le> now - l"
      using minutes_ge_iff [of "now - l"] by simp
    then show ?thesis using Some
      by (simp add: generate_alert_later throttle_lookup_fired generate_alert_state)
  qed
next
  show "\<forall>i j. i < j \<and> j < length (fst (admit_all cfg rs st))
              \<and> same_key (fst (admit_all cfg rs st) ! i) (fst (admit_all cfg rs st) ! j)
            \<longrightarrow> alert_throttle_minutes cfg * ticks_per_minute
                  \<le> alert_timestamp (fst (admit_all cfg rs st) ! j)
                     - alert_timestamp (fst (admit_all cfg rs st) ! i)"
    using spaced_nth [OF admit_all_spaced [OF sorted start]] by blast
next
  show "alert_throttle_minutes cfg = 5 \<and> throttle_lookup st sid ty = None
            \<and> ta \<le> tb \<and> tb - ta < 5 * ticks_per_minute \<and> tb \<le> tc \<and> 5 * ticks_per_minute \<le> tc - ta
          \<longrightarrow> fst (admit_all cfg [(ta, sid, ty, sensor), (tb, sid, ty, sensor)] st)
                = [make_alert ta sid ty sensor]
              \<and> fst (admit_all cfg [(ta, sid, ty, sensor), (tb, sid, ty, sensor), (tc, sid, ty, sensor)] st)
                = [make_alert ta sid ty sensor, make_alert tc sid ty sensor]"
  proof (intro impI, elim conjE)
    assume c: "alert_throttle_minutes cfg = 5" and n: "throttle_lookup st sid ty = None"
      and t: "ta \<le> tb" "tb - ta < 5 * ticks_per_minute" "tb \<le> tc" "5 * ticks_per_minute \<le> tc - ta"
    let ?st1 = "fired_state cfg ta sid ty sensor st"
    have g1: "generate_alert cfg ta sid ty sensor st = ([make_alert ta sid ty sensor], ?st1)"
      using n by (rule generate_alert_first)
    have l1: "throttle_lookup ?st1 sid ty = Some ta" by (simp add: throttle_lookup_fired)
    have "\<not> 5 \<le> duration_cast_minutes (tb - ta)"
      using t minutes_ge_iff [of "tb - ta" 5] by simp
    then have g2: "generate_alert cfg tb sid ty sensor ?st1 = ([], ?st1)"
      using generate_alert_later [OF l1, of cfg tb sensor] c by simp
    have "5 \<le> duration_cast_minutes (tc - ta)"
      using t minutes_ge_iff [of "tc - ta" 5] by simp
    then have g3: "generate_alert cfg tc sid ty sensor ?st1
        = ([make_alert tc sid ty sensor], fired_state cfg tc sid ty sensor ?st1)"
      using generate_alert_later [OF l1, of cfg tc sensor] c by simp
    show "fst (admit_all cfg [(ta, sid, ty, sensor), (tb, sid, ty, sensor)] st)
                = [make_alert ta sid ty sensor]
              \<and> fst (admit_all cfg [(ta, sid, ty, sensor), (tb, sid, ty, sensor), (tc, sid, ty, sensor)] st)
                = [make_alert ta sid ty sensor, make_alert tc sid ty sensor]"
      by (simp add: g1 g2 g3)
  qed
next
  show "sorted (map op_time ops) \<longrightarrow>
            (\<forall>i j. i < j \<and> j < length (fst (run_tracker cfg ops new_tracker))
                \<and> same_key (fst (run_tracker cfg ops new_tracker) ! i)
                             (fst (run_tracker cfg ops new_tracker) ! j)
              \<longrightarrow> alert_throttle_minutes cfg * ticks_per_minute
                    \<le> alert_timestamp (fst (run_tracker cfg ops new_tracker) ! j)
                       - alert_timestamp (fst (run_tracker cfg ops new_tracker) ! i))"
    using spaced_nth [OF run_tracker_spaced] by blast
qed

theorem alert_throttle_cooldown_witness:
  "fst (admit_all default_config
         [(60000000000, ''s1'', TEMP_TOO_HIGH, demo_sensor),
          (120000000000, ''s1'', TEMP_TOO_HIGH, demo_sensor),
          (360000000000, ''s1'', TEMP_TOO_HIGH, demo_sensor)] new_tracker)
     = [make_alert 60000000000 ''s1'' TEMP_TOO_HIGH demo_sensor,
        make_alert 360000000000 ''s1'' TEMP_TOO_HIGH demo_sensor]
   \<and> fst (generate_alert default_config 60000000000 ''s1'' TEMP_TOO_HIGH demo_sensor new_tracker)
     = [make_alert 60000000000 ''s1'' TEMP_TOO_HIGH demo_sensor]
   \<and> sorted (map fst [(60000000000 :: int, ''s1'', TEMP_TOO_HIGH, demo_sensor),
                         (120000000000, ''s1'', TEMP_TOO_HIGH, demo_sensor),
                         (360000000000, ''s1'', TEMP_TOO_HIGH, demo_sensor)])
   \<and> sorted (map op_time [Reading 60000000000 ''s1'' 30 40 [], Sweep 120000000000,
                            Reading 360000000000 ''s1'' 30 40 []])"
proof -
  have none: "throttle_lookup new_tracker s t = None" for s t
    by (simp add: throttle_lookup_def new_tracker_def)
  have c: "alert_throttle_minutes default_config = 5" by (simp add: default_config_def)
  have tpm: "ticks_per_minute = 60000000000" by (simp add: ticks_per_minute_def ticks_per_second_def)
  show ?thesis
    using alert_throttle_cooldown [where st = new_tracker and sid = "''s1''" and ty = TEMP_TOO_HIGH
        and now = 60000000000 and cfg = default_config and sensor = demo_sensor
        and ta = 60000000000 and tb = 120000000000 and tc = 360000000000
        and rs = "[(60000000000, ''s1'', TEMP_TOO_HIGH, demo_sensor),
                   (120000000000, ''s1'', TEMP_TOO_HIGH, demo_sensor),
                   (360000000000, ''s1'', TEMP_TOO_HIGH, demo_sensor)]"
        and ops = "[Reading 60000000000 ''s1'' 30 40 [], Sweep 120000000000,
                    Reading 360000000000 ''s1'' 30 40 []]"]
    by (simp add: none c tpm split: prod.splits)
qed

end
